theory Spec2Isabelle
  imports Complex_Main
begin

section \<open>JavaScript values used by the two assessment components\<close>

text \<open>
  The repository holds two React components, \<^verbatim>\<open>ExcelAssessment.tsx\<close> (the question session)
  and \<^verbatim>\<open>InteractiveExcelAssessment.tsx\<close> (the spreadsheet task session). This theory embeds
  their state, their event handlers and their evaluator calls.

  Conventions of the embedding:
  \<^item> a JavaScript string is a \<open>string\<close>; ASCII text is modelled exactly, a character beyond
    ASCII stands as its UTF-8 bytes;
  \<^item> a JavaScript number is a \<open>rat\<close>: the exact value of the literal or of the arithmetic,
    without the rounding of IEEE doubles;
  \<^item> \<open>new Date()\<close> is an input of the handler that reads it: a number of milliseconds;
  \<^item> \<open>undefined\<close> is \<open>None\<close>; a thrown exception is \<open>None\<close> of the function that throws,
    and the \<open>catch\<close> that handles it is the \<open>None\<close> branch of the caller.
\<close>

datatype json =
    JNull
  | JBool bool
  | JNum rat
  | JStr string
  | JArr "json list"
  | JObj "(string \<times> json) list"

type_synonym jsval = "json option"

subsection \<open>\<^verbatim>\<open>String.prototype.trim\<close> and \<^verbatim>\<open>Math.round\<close>\<close>

text \<open>
  \<^verbatim>\<open>trim\<close> removes from both ends the code points of the productions \<^verbatim>\<open>WhiteSpace\<close> and
  \<^verbatim>\<open>LineTerminator\<close> of ECMAScript. \<open>white_space\<close> lists them as UTF-8 bytes, in this order:
  U+0009, U+000B, U+000C, U+FEFF; the space separators U+0020, U+00A0, U+1680, U+2000 to
  U+200A, U+202F, U+205F, U+3000; the line terminators U+000A, U+000D, U+2028, U+2029.
\<close>

definition white_space :: "string list" where
  \<open>white_space =
    [[CHR 0x09], [CHR 0x0B], [CHR 0x0C], [CHR 0xEF, CHR 0xBB, CHR 0xBF], [CHR 0x20],
     [CHR 0xC2, CHR 0xA0], [CHR 0xE1, CHR 0x9A, CHR 0x80],
     [CHR 0xE2, CHR 0x80, CHR 0x80], [CHR 0xE2, CHR 0x80, CHR 0x81],
     [CHR 0xE2, CHR 0x80, CHR 0x82], [CHR 0xE2, CHR 0x80, CHR 0x83],
     [CHR 0xE2, CHR 0x80, CHR 0x84], [CHR 0xE2, CHR 0x80, CHR 0x85],
     [CHR 0xE2, CHR 0x80, CHR 0x86], [CHR 0xE2, CHR 0x80, CHR 0x87],
     [CHR 0xE2, CHR 0x80, CHR 0x88], [CHR 0xE2, CHR 0x80, CHR 0x89],
     [CHR 0xE2, CHR 0x80, CHR 0x8A], [CHR 0xE2, CHR 0x80, CHR 0xAF],
     [CHR 0xE2, CHR 0x81, CHR 0x9F], [CHR 0xE3, CHR 0x80, CHR 0x80], [CHR 0x0A],
     [CHR 0x0D], [CHR 0xE2, CHR 0x80, CHR 0xA8], [CHR 0xE2, CHR 0x80, CHR 0xA9]]\<close>

text \<open>The length of the first of the patterns that the text starts with, \<open>0\<close> when there is
  none.\<close>

definition match_length :: "string list \<Rightarrow> string \<Rightarrow> nat" where
  \<open>match_length pats s =
     (case find (\<lambda>w. take (length w) s = w) pats of None \<Rightarrow> 0 | Some w \<Rightarrow> length w)\<close>

text \<open>The text without the patterns it starts with: the second argument counts the characters
  of a match still to drop.\<close>

fun drop_matches :: "string list \<Rightarrow> nat \<Rightarrow> string \<Rightarrow> string" where
  \<open>drop_matches pats k [] = []\<close>
| \<open>drop_matches pats (Suc k) (c # cs) = drop_matches pats k cs\<close>
| \<open>drop_matches pats 0 (c # cs) =
     (if match_length pats (c # cs) = 0 then c # cs
      else drop_matches pats (match_length pats (c # cs) - 1) cs)\<close>

text \<open>The end of the text is trimmed as the start of the reversed text, with the byte sequences
  reversed.\<close>

definition js_trim :: "string \<Rightarrow> string" where
  \<open>js_trim s =
     rev (drop_matches (map rev white_space) 0 (rev (drop_matches white_space 0 s)))\<close>

text \<open>\<^verbatim>\<open>Math.round\<close>: the nearest integer, a tie going to the larger one.\<close>

definition Math_round :: "rat \<Rightarrow> int" where
  \<open>Math_round x = \<lfloor>x + 1 / 2\<rfloor>\<close>

subsection \<open>\<^verbatim>\<open>JSON.parse\<close>\<close>

text \<open>
  The built-in parser, written out after the JSON grammar (ECMA-404): white space is space,
  tab, line feed and carriage return; a number is \<^verbatim>\<open>-? int frac? exp?\<close>; a string is quoted,
  with the escapes \<^verbatim>\<open>\" \\ \/ \b \f \n \r \t \uXXXX\<close> and no raw control character; an object
  keeps its members in order. \<open>None\<close> is the \<^verbatim>\<open>SyntaxError\<close>.
\<close>

definition json_ws :: "char \<Rightarrow> bool" where
  \<open>json_ws c = (c = CHR 0x20 \<or> c = CHR 0x09 \<or> c = CHR 0x0A \<or> c = CHR 0x0D)\<close>

definition skip_ws :: "string \<Rightarrow> string" where
  \<open>skip_ws s = dropWhile json_ws s\<close>

definition expect :: "char \<Rightarrow> string \<Rightarrow> string option" where
  \<open>expect c s = (case s of [] \<Rightarrow> None | x # r \<Rightarrow> if x = c then Some r else None)\<close>

definition expect_lit :: "string \<Rightarrow> string \<Rightarrow> string option" where
  \<open>expect_lit l s = (if take (length l) s = l then Some (drop (length l) s) else None)\<close>

definition is_digit :: "char \<Rightarrow> bool" where
  \<open>is_digit c = (48 \<le> (of_char c :: nat) \<and> (of_char c :: nat) \<le> 57)\<close>

fun digits_val :: "nat \<Rightarrow> string \<Rightarrow> nat" where
  \<open>digits_val acc [] = acc\<close>
| \<open>digits_val acc (c # cs) = digits_val (10 * acc + (of_char c - 48)) cs\<close>

definition hex_val :: "char \<Rightarrow> nat option" where
  \<open>hex_val c =
     (let n = (of_char c :: nat) in
      if 48 \<le> n \<and> n \<le> 57 then Some (n - 48)
      else if 65 \<le> n \<and> n \<le> 70 then Some (n - 55)
      else if 97 \<le> n \<and> n \<le> 102 then Some (n - 87)
      else None)\<close>

fun hex4 :: "string \<Rightarrow> nat option" where
  \<open>hex4 [a, b, c, d] =
     (case (hex_val a, hex_val b, hex_val c, hex_val d) of
        (Some x, Some y, Some z, Some w) \<Rightarrow> Some (((x * 16 + y) * 16 + z) * 16 + w)
      | _ \<Rightarrow> None)\<close>
| \<open>hex4 _ = None\<close>

definition utf8 :: "nat \<Rightarrow> string" where
  \<open>utf8 n =
     (if n < 0x80 then [char_of n]
      else if n < 0x800 then [char_of (0xC0 + n div 64), char_of (0x80 + n mod 64)]
      else [char_of (0xE0 + n div 4096), char_of (0x80 + (n div 64) mod 64),
            char_of (0x80 + n mod 64)])\<close>

definition simple_escape :: "char \<Rightarrow> char option" where
  \<open>simple_escape e =
     (if e = CHR 0x22 then Some (CHR 0x22)
      else if e = CHR 0x5C then Some (CHR 0x5C)
      else if e = CHR ''/'' then Some (CHR ''/'')
      else if e = CHR ''b'' then Some (CHR 0x08)
      else if e = CHR ''f'' then Some (CHR 0x0C)
      else if e = CHR ''n'' then Some (CHR 0x0A)
      else if e = CHR ''r'' then Some (CHR 0x0D)
      else if e = CHR ''t'' then Some (CHR 0x09)
      else None)\<close>

text \<open>The characters of a string literal, after its opening quote, up to the closing one.\<close>

fun parse_chars :: "nat \<Rightarrow> string \<Rightarrow> (string \<times> string) option" where
  \<open>parse_chars 0 s = None\<close>
| \<open>parse_chars (Suc n) [] = None\<close>
| \<open>parse_chars (Suc n) (c # cs) =
     (if c = CHR 0x22 then Some ([], cs)
      else if c = CHR 0x5C then
        (case cs of
           [] \<Rightarrow> None
         | e # r \<Rightarrow>
             if e = CHR ''u'' then
               (case hex4 (take 4 r) of
                  None \<Rightarrow> None
                | Some u \<Rightarrow>
                    (case parse_chars n (drop 4 r) of
                       None \<Rightarrow> None
                     | Some (str, rest) \<Rightarrow> Some (utf8 u @ str, rest)))
             else
               (case simple_escape e of
                  None \<Rightarrow> None
                | Some x \<Rightarrow>
                    (case parse_chars n r of
                       None \<Rightarrow> None
                     | Some (str, rest) \<Rightarrow> Some (x # str, rest))))
      else if (of_char c :: nat) < 0x20 then None
      else
        (case parse_chars n cs of
           None \<Rightarrow> None
         | Some (str, rest) \<Rightarrow> Some (c # str, rest)))\<close>

definition parse_int_part :: "string \<Rightarrow> (string \<times> string) option" where
  \<open>parse_int_part s =
     (case s of
        [] \<Rightarrow> None
      | c # cs \<Rightarrow>
          if c = CHR ''0'' then Some ([c], cs)
          else if is_digit c then Some (takeWhile is_digit s, dropWhile is_digit s)
          else None)\<close>

definition parse_frac :: "string \<Rightarrow> (string \<times> string) option" where
  \<open>parse_frac s =
     (case expect (CHR ''.'') s of
        None \<Rightarrow> Some ([], s)
      | Some r \<Rightarrow>
          if takeWhile is_digit r = [] then None
          else Some (takeWhile is_digit r, dropWhile is_digit r))\<close>

definition parse_exp :: "string \<Rightarrow> (int \<times> string) option" where
  \<open>parse_exp s =
     (case s of
        [] \<Rightarrow> Some (0, s)
      | c # cs \<Rightarrow>
          if c = CHR ''e'' \<or> c = CHR ''E'' then
            (let neg = (expect (CHR ''-'') cs \<noteq> None);
                 r = (case expect (CHR ''-'') cs of
                        Some r1 \<Rightarrow> r1
                      | None \<Rightarrow> (case expect (CHR ''+'') cs of Some r2 \<Rightarrow> r2 | None \<Rightarrow> cs))
             in if takeWhile is_digit r = [] then None
                else Some ((if neg then - 1 else 1) * int (digits_val 0 (takeWhile is_digit r)),
                           dropWhile is_digit r))
          else Some (0, s))\<close>

definition scale10 :: "rat \<Rightarrow> int \<Rightarrow> rat" where
  \<open>scale10 x e = (if 0 \<le> e then x * 10 ^ nat e else x / 10 ^ nat (- e))\<close>

definition parse_number :: "string \<Rightarrow> (rat \<times> string) option" where
  \<open>parse_number s =
     (let neg = (expect (CHR ''-'') s \<noteq> None);
          s1 = (case expect (CHR ''-'') s of Some r \<Rightarrow> r | None \<Rightarrow> s)
      in case parse_int_part s1 of
           None \<Rightarrow> None
         | Some (ip, s2) \<Rightarrow>
             (case parse_frac s2 of
                None \<Rightarrow> None
              | Some (fp, s3) \<Rightarrow>
                  (case parse_exp s3 of
                     None \<Rightarrow> None
                   | Some (e, s4) \<Rightarrow>
                       Some ((if neg then - 1 else 1) *
                             scale10 (of_nat (digits_val 0 ip) +
                                      of_nat (digits_val 0 fp) / 10 ^ length fp) e,
                             s4))))\<close>

text \<open>A string, a literal name or a number: the values without parts.\<close>

definition parse_scalar :: "string \<Rightarrow> (json \<times> string) option" where
  \<open>parse_scalar s =
     (case s of
        [] \<Rightarrow> None
      | c # cs \<Rightarrow>
          if c = CHR 0x22 then
            (case parse_chars (length cs) cs of
               None \<Rightarrow> None
             | Some (str, r) \<Rightarrow> Some (JStr str, r))
          else if c = CHR ''t'' then
            (case expect_lit ''rue'' cs of None \<Rightarrow> None | Some r \<Rightarrow> Some (JBool True, r))
          else if c = CHR ''f'' then
            (case expect_lit ''alse'' cs of None \<Rightarrow> None | Some r \<Rightarrow> Some (JBool False, r))
          else if c = CHR ''n'' then
            (case expect_lit ''ull'' cs of None \<Rightarrow> None | Some r \<Rightarrow> Some (JNull, r))
          else
            (case parse_number s of None \<Rightarrow> None | Some (q, r) \<Rightarrow> Some (JNum q, r)))\<close>

text \<open>
  Values, array elements and object members. The first argument bounds the depth of the
  recursion; \<open>JSON_parse\<close> starts it at \<open>2 * length s + 2\<close>, which is enough for a text of that
  length (\<open>JSON_parse_depth_enough\<close> below): no text is rejected for its depth.
\<close>

fun parse_value :: "nat \<Rightarrow> string \<Rightarrow> (json \<times> string) option"
  and parse_elements :: "nat \<Rightarrow> string \<Rightarrow> (json list \<times> string) option"
  and parse_members :: "nat \<Rightarrow> string \<Rightarrow> ((string \<times> json) list \<times> string) option"
where
  \<open>parse_value 0 s = None\<close>
| \<open>parse_value (Suc n) s =
     (case s of
        [] \<Rightarrow> None
      | c # cs \<Rightarrow>
          if c = CHR ''{'' then
            (case expect (CHR ''}'') (skip_ws cs) of
               Some r \<Rightarrow> Some (JObj [], r)
             | None \<Rightarrow>
                 (case parse_members n (skip_ws cs) of
                    None \<Rightarrow> None
                  | Some (kvs, r) \<Rightarrow> Some (JObj kvs, r)))
          else if c = CHR ''['' then
            (case expect (CHR '']'') (skip_ws cs) of
               Some r \<Rightarrow> Some (JArr [], r)
             | None \<Rightarrow>
                 (case parse_elements n (skip_ws cs) of
                    None \<Rightarrow> None
                  | Some (vs, r) \<Rightarrow> Some (JArr vs, r)))
          else parse_scalar s)\<close>
| \<open>parse_elements 0 s = None\<close>
| \<open>parse_elements (Suc n) s =
     (case parse_value n s of
        None \<Rightarrow> None
      | Some (v, r) \<Rightarrow>
          (case expect (CHR '','') (skip_ws r) of
             Some r1 \<Rightarrow>
               (case parse_elements n (skip_ws r1) of
                  None \<Rightarrow> None
                | Some (vs, r2) \<Rightarrow> Some (v # vs, r2))
           | None \<Rightarrow>
               (case expect (CHR '']'') (skip_ws r) of
                  None \<Rightarrow> None
                | Some r1 \<Rightarrow> Some ([v], r1))))\<close>
| \<open>parse_members 0 s = None\<close>
| \<open>parse_members (Suc n) s =
     (case expect (CHR 0x22) s of
        None \<Rightarrow> None
      | Some s1 \<Rightarrow>
          (case parse_chars (length s1) s1 of
             None \<Rightarrow> None
           | Some (k, s2) \<Rightarrow>
               (case expect (CHR '':'') (skip_ws s2) of
                  None \<Rightarrow> None
                | Some s3 \<Rightarrow>
                    (case parse_value n (skip_ws s3) of
                       None \<Rightarrow> None
                     | Some (v, r) \<Rightarrow>
                         (case expect (CHR '','') (skip_ws r) of
                            Some r1 \<Rightarrow>
                              (case parse_members n (skip_ws r1) of
                                 None \<Rightarrow> None
                               | Some (kvs, r2) \<Rightarrow> Some ((k, v) # kvs, r2))
                          | None \<Rightarrow>
                              (case expect (CHR ''}'') (skip_ws r) of
                                 None \<Rightarrow> None
                               | Some r1 \<Rightarrow> Some ([(k, v)], r1)))))))\<close>

definition JSON_parse :: "string \<Rightarrow> json option" where
  \<open>JSON_parse s =
     (case parse_value (2 * length s + 2) (skip_ws s) of
        None \<Rightarrow> None
      | Some (v, r) \<Rightarrow> if skip_ws r = [] then Some v else None)\<close>

subsection \<open>Property access, truthiness and \<^verbatim>\<open>||\<close>\<close>

text \<open>
  \<^verbatim>\<open>parsed.score\<close> on a parsed JSON value: reading a property of \<^verbatim>\<open>null\<close> throws a
  \<^verbatim>\<open>TypeError\<close> (\<open>None\<close>); an object gives the value of its last member of that name, or
  \<^verbatim>\<open>undefined\<close>; a number, a boolean, a string or an array has no property named
  \<^verbatim>\<open>score\<close> or \<^verbatim>\<open>justification\<close>, the two names the components read.
\<close>

fun js_prop :: "json \<Rightarrow> string \<Rightarrow> jsval option" where
  \<open>js_prop JNull k = None\<close>
| \<open>js_prop (JObj kvs) k = Some (map_of (rev kvs) k)\<close>
| \<open>js_prop v k = Some None\<close>

fun truthy :: "jsval \<Rightarrow> bool" where
  \<open>truthy None = False\<close>
| \<open>truthy (Some JNull) = False\<close>
| \<open>truthy (Some (JBool b)) = b\<close>
| \<open>truthy (Some (JNum q)) = (q \<noteq> 0)\<close>
| \<open>truthy (Some (JStr s)) = (s \<noteq> [])\<close>
| \<open>truthy (Some (JArr vs)) = True\<close>
| \<open>truthy (Some (JObj kvs)) = True\<close>

text \<open>\<^verbatim>\<open>v || d\<close> with a defined right operand.\<close>

definition js_or :: "jsval \<Rightarrow> json \<Rightarrow> json" where
  \<open>js_or v d = (case v of None \<Rightarrow> d | Some j \<Rightarrow> if truthy (Some j) then j else d)\<close>

subsection \<open>\<^verbatim>\<open>aiResponse.replace(/```json\n?|\n?```/g, '')\<close>\<close>

text \<open>
  The length of the match of the regular expression at the start of the text, \<open>0\<close> when it
  does not match there: the first alternative is tried first, and \<^verbatim>\<open>\n?\<close> is greedy.
\<close>

definition fence_match :: "string \<Rightarrow> nat" where
  \<open>fence_match s =
     (if take 7 s = ''```json'' then (if take 1 (drop 7 s) = [CHR 0x0A] then 8 else 7)
      else if take 4 s = CHR 0x0A # ''```'' then 4
      else if take 3 s = ''```'' then 3
      else 0)\<close>

text \<open>The global replacement: the first argument counts the characters of a match still to drop.\<close>

fun replace_from :: "nat \<Rightarrow> string \<Rightarrow> string" where
  \<open>replace_from k [] = []\<close>
| \<open>replace_from (Suc k) (c # cs) = replace_from k cs\<close>
| \<open>replace_from 0 (c # cs) =
     (if fence_match (c # cs) = 0 then c # replace_from 0 cs
      else replace_from (fence_match (c # cs) - 1) cs)\<close>

definition replace_fences :: "string \<Rightarrow> string" where
  \<open>replace_fences s = replace_from 0 s\<close>

section \<open>The evaluator calls\<close>

text \<open>The value both \<^verbatim>\<open>evaluateAnswer\<close> and \<^verbatim>\<open>evaluateTask\<close> resolve to. The declared type is
  \<^verbatim>\<open>{score: number; justification: string}\<close>, but the fields come from \<^verbatim>\<open>JSON.parse\<close>, of type
  \<^verbatim>\<open>any\<close>, so at run time they hold whatever the response held.\<close>

record evaluation =
  score :: json
  justification :: json

datatype flag_type = paste | tab_switch

record CheatingFlag =
  type :: flag_type
  timestamp :: int

datatype action_type = cell_edit | formula_entered | data_changed

record SpreadsheetAction =
  timestamp :: int
  type :: action_type
  cell :: string
  oldValue :: string
  newValue :: string

record Task =
  id' :: nat
  title :: string
  description :: string
  expectedResult :: string
  difficulty :: string
  timeLimit :: int

definition EXCEL_QUESTIONS :: "string list" where
  \<open>EXCEL_QUESTIONS =
    [''In your own words, what is the primary purpose of VLOOKUP in Excel?'',
     ''You have a dataset where column A contains Product IDs and column B contains Product Names. On another sheet, you have a Product ID in cell C2. Write the VLOOKUP formula to find the corresponding Product Name.'',
     ''What is the difference between VLOOKUP's TRUE and FALSE arguments for the [range_lookup] parameter? When would you use TRUE?'',
     ''VLOOKUP returns an #N/A error. List three common reasons why this might be happening.'',
     ''What are the main advantages of using INDEX and MATCH together over VLOOKUP?'']\<close>

definition EXCEL_TASKS :: "Task list" where
  \<open>EXCEL_TASKS =
    [\<lparr>id' = 1, title = ''Basic VLOOKUP'',
      description = ''In cell F2, create a VLOOKUP formula to find the price of the product ID entered in cell E2.'',
      expectedResult = ''=VLOOKUP(E2,A:B,2,FALSE)'', difficulty = ''Easy'', timeLimit = 180\<rparr>,
     \<lparr>id' = 2, title = ''Data Validation & Formatting'',
      description = ''Apply currency formatting to column B (Price) and create a data validation dropdown in E2 with the product IDs from column A.'',
      expectedResult = ''formatted_currency'', difficulty = ''Medium'', timeLimit = 300\<rparr>,
     \<lparr>id' = 3, title = ''INDEX MATCH Alternative'',
      description = ''In cell F3, create an INDEX/MATCH formula that does the same lookup as the VLOOKUP in F2, but can search in any direction.'',
      expectedResult = ''=INDEX(B:B,MATCH(E2,A:A,0))'', difficulty = ''Medium'', timeLimit = 240\<rparr>,
     \<lparr>id' = 4, title = ''Error Handling'',
      description = ''Modify your VLOOKUP formula in F2 to display 'Product Not Found' instead of #N/A when the lookup fails.'',
      expectedResult = ''=IFERROR(VLOOKUP(E2,A:B,2,FALSE),"Product Not Found")'', difficulty = ''Hard'',
      timeLimit = 300\<rparr>,
     \<lparr>id' = 5, title = ''Advanced Analysis'',
      description = ''Create a summary in cells H1:I3 showing: Total Products, Average Price, and Most Expensive Product Name.'',
      expectedResult = ''multiple_formulas'', difficulty = ''Hard'', timeLimit = 420\<rparr>]\<close>

text \<open>
  What the awaited HTTP exchange can come to, named by the statement of the adapter that
  ends it: \<^verbatim>\<open>fetch\<close> rejects; \<^verbatim>\<open>response.ok\<close> is false; \<^verbatim>\<open>response.json()\<close> rejects;
  \<^verbatim>\<open>data.candidates[0].content.parts[0]\<close> cannot be reached, so reading \<^verbatim>\<open>.text\<close> throws a
  \<^verbatim>\<open>TypeError\<close>; the part has no \<^verbatim>\<open>text\<close>; or \<^verbatim>\<open>aiResponse\<close> is a string.
\<close>

datatype fetch_outcome =
    Fetch_rejected
  | Status_not_ok
  | Body_not_json
  | Path_missing
  | Text_undefined
  | Text string

text \<open>
  A request stands for the one \<^verbatim>\<open>fetch\<close> call of an adapter and holds the values its URL and
  its prompt are built from: the key, and the question and answer, or the task and the
  actions (for a task the prompt also prints the grid, which is left out here).
\<close>

datatype request =
    Answer_request string "string option" string
  | Task_request string Task "SpreadsheetAction list"

text \<open>The inner \<^verbatim>\<open>try\<close> of both adapters, from the parsed value on: the two property reads
  and the two defaults; \<open>None\<close> is the exception that the inner \<^verbatim>\<open>catch\<close> takes.\<close>

definition parsed_evaluation :: "string \<Rightarrow> json \<Rightarrow> evaluation option" where
  \<open>parsed_evaluation unable parsed =
     (case js_prop parsed ''score'' of
        None \<Rightarrow> None
      | Some sc \<Rightarrow>
          (case js_prop parsed ''justification'' of
             None \<Rightarrow> None
           | Some ju \<Rightarrow>
               Some \<lparr>score = js_or sc (JNum 0), justification = js_or ju (JStr unable)\<rparr>))\<close>

text \<open>\<^verbatim>\<open>evaluateAnswer\<close> after the awaited \<^verbatim>\<open>fetch\<close> (ExcelAssessment.tsx, lines 106 to 133).\<close>

definition evaluateAnswer_response :: "fetch_outcome \<Rightarrow> evaluation" where
  \<open>evaluateAnswer_response out =
     (let error = \<lparr>score = JNum 0, justification = JStr ''Error occurred during evaluation''\<rparr>;
          fallback = \<lparr>score = JNum 5,
                      justification = JStr ''Answer received but could not be properly evaluated''\<rparr>
      in case out of
           Fetch_rejected \<Rightarrow> error
         | Status_not_ok \<Rightarrow> error
         | Body_not_json \<Rightarrow> error
         | Path_missing \<Rightarrow> error
         | Text_undefined \<Rightarrow> fallback
         | Text aiResponse \<Rightarrow>
             (case JSON_parse aiResponse of
                None \<Rightarrow> fallback
              | Some parsed \<Rightarrow>
                  (case parsed_evaluation ''Unable to evaluate answer'' parsed of
                     None \<Rightarrow> fallback
                   | Some ev \<Rightarrow> ev)))\<close>

text \<open>\<^verbatim>\<open>evaluateAnswer\<close>: the result and the requests sent, in order; \<open>net\<close> is the service.
  \<open>answering out\<close> is the service whose every exchange comes to \<open>out\<close>.\<close>

definition answering :: "fetch_outcome \<Rightarrow> request \<Rightarrow> fetch_outcome" where
  \<open>answering out req = out\<close>

definition evaluateAnswer ::
  "string \<Rightarrow> string option \<Rightarrow> string \<Rightarrow> (request \<Rightarrow> fetch_outcome) \<Rightarrow> evaluation \<times> request list" where
  \<open>evaluateAnswer apiKey question answer net =
     (if apiKey = [] then
        (\<lparr>score = JNum 0, justification = JStr ''API key required for evaluation''\<rparr>, [])
      else
        (evaluateAnswer_response (net (Answer_request apiKey question answer)),
         [Answer_request apiKey question answer]))\<close>

text \<open>\<^verbatim>\<open>evaluateTask\<close> after the awaited \<^verbatim>\<open>fetch\<close> (InteractiveExcelAssessment.tsx, lines 205
  to 222): here the text goes through \<^verbatim>\<open>replace\<close> first, and \<^verbatim>\<open>undefined.replace\<close> throws inside
  the inner \<^verbatim>\<open>try\<close>.\<close>

definition evaluateTask_response :: "fetch_outcome \<Rightarrow> evaluation" where
  \<open>evaluateTask_response out =
     (let error = \<lparr>score = JNum 0, justification = JStr ''Error occurred during evaluation''\<rparr>;
          fallback = \<lparr>score = JNum 5,
                      justification = JStr ''Task received but could not be properly evaluated''\<rparr>
      in case out of
           Fetch_rejected \<Rightarrow> error
         | Status_not_ok \<Rightarrow> error
         | Body_not_json \<Rightarrow> error
         | Path_missing \<Rightarrow> error
         | Text_undefined \<Rightarrow> fallback
         | Text aiResponse \<Rightarrow>
             (case JSON_parse (replace_fences aiResponse) of
                None \<Rightarrow> fallback
              | Some parsed \<Rightarrow>
                  (case parsed_evaluation ''Unable to evaluate task'' parsed of
                     None \<Rightarrow> fallback
                   | Some ev \<Rightarrow> ev)))\<close>

definition evaluateTask ::
  "string \<Rightarrow> nat \<Rightarrow> SpreadsheetAction list \<Rightarrow> (request \<Rightarrow> fetch_outcome) \<Rightarrow> evaluation \<times> request list" where
  \<open>evaluateTask apiKey taskId actions net =
     (if apiKey = [] then
        (\<lparr>score = JNum 0, justification = JStr ''API key required for evaluation''\<rparr>, [])
      else
        (case find (\<lambda>t. id' t = taskId) EXCEL_TASKS of
           None \<Rightarrow> (\<lparr>score = JNum 0, justification = JStr ''Task not found''\<rparr>, [])
         | Some task \<Rightarrow>
             (evaluateTask_response (net (Task_request apiKey task actions)),
              [Task_request apiKey task actions])))\<close>

text \<open>
  The components go on with \<^verbatim>\<open>evaluation.score\<close> as a number (they compare it, add it up and
  print it) and with the justification as a string, as the declared type says. The session
  models below hold numbers and strings; \<open>typed_evaluation\<close> is the passage, and is \<open>None\<close> on a
  result that is not of the declared type (a response whose score is, say, a non-empty
  string), which those models do not cover.
\<close>

definition typed_evaluation :: "evaluation \<Rightarrow> (rat \<times> string) option" where
  \<open>typed_evaluation ev =
     (case score ev of
        JNum q \<Rightarrow> (case justification ev of JStr s \<Rightarrow> Some (q, s) | _ \<Rightarrow> None)
      | _ \<Rightarrow> None)\<close>

text \<open>\<^verbatim>\<open>xs[i]\<close> on an array without holes: \<^verbatim>\<open>undefined\<close> out of range.\<close>

definition js_index :: "'a list \<Rightarrow> nat \<Rightarrow> 'a option" where
  \<open>js_index xs i = (if i < length xs then Some (xs ! i) else None)\<close>

section \<open>The question session (ExcelAssessment.tsx)\<close>

datatype interview_stage = Q_welcome | Q_interview | Q_report

record Answer =
  question :: "string option"
  answer :: string
  score :: rat
  justification :: string

text \<open>
  \<^verbatim>\<open>handleSubmitAnswer\<close> is suspended at \<^verbatim>\<open>await evaluateAnswer(...)\<close> and goes on when the call
  resolves, with the values of the render it was created in. A suspended call is kept as the
  values it reads after the \<^verbatim>\<open>await\<close>.
\<close>

record submit_call =
  call_question :: "string option"
  call_answer :: string
  call_index :: nat
  call_apiKey :: string

record question_session =
  interviewStage :: interview_stage
  currentQuestionIndex :: nat
  answers :: "Answer list"
  cheatingFlags :: "CheatingFlag list"
  isLoading :: bool
  currentAnswer :: string
  startTime :: "int option"
  apiKey :: string
  showApiKeyInput :: bool
  suspended :: "submit_call list"

definition question_session_init :: question_session where
  \<open>question_session_init =
     \<lparr>interviewStage = Q_welcome, currentQuestionIndex = 0, answers = [], cheatingFlags = [],
      isLoading = False, currentAnswer = [], startTime = None, apiKey = [],
      showApiKeyInput = False, suspended = []\<rparr>\<close>

definition handleVisibilityChange :: "bool \<Rightarrow> int \<Rightarrow> question_session \<Rightarrow> question_session" where
  \<open>handleVisibilityChange hidden now st =
     (if hidden \<and> interviewStage st = Q_interview then
        st\<lparr>cheatingFlags := cheatingFlags st @
             [\<lparr>CheatingFlag.type = tab_switch, CheatingFlag.timestamp = now\<rparr>]\<rparr>
      else st)\<close>

definition handlePaste :: "int \<Rightarrow> question_session \<Rightarrow> question_session" where
  \<open>handlePaste now st =
     st\<lparr>cheatingFlags := cheatingFlags st @
          [\<lparr>CheatingFlag.type = paste, CheatingFlag.timestamp = now\<rparr>]\<rparr>\<close>

text \<open>\<^verbatim>\<open>handleSubmitAnswer\<close> up to its \<^verbatim>\<open>await\<close>.\<close>

definition handleSubmitAnswer_begin :: "question_session \<Rightarrow> question_session" where
  \<open>handleSubmitAnswer_begin st =
     (if js_trim (currentAnswer st) = [] then st
      else st\<lparr>isLoading := True,
              suspended := suspended st @
                [\<lparr>call_question = js_index EXCEL_QUESTIONS (currentQuestionIndex st),
                  call_answer = currentAnswer st,
                  call_index = currentQuestionIndex st,
                  call_apiKey = apiKey st\<rparr>]\<rparr>)\<close>

text \<open>\<^verbatim>\<open>handleSubmitAnswer\<close> from the resolved evaluation on.\<close>

definition handleSubmitAnswer_resume ::
  "submit_call \<Rightarrow> rat \<times> string \<Rightarrow> question_session \<Rightarrow> question_session" where
  \<open>handleSubmitAnswer_resume c ev st =
     (let newAnswer = \<lparr>question = call_question c, answer = call_answer c,
                       score = fst ev, justification = snd ev\<rparr>;
          st1 = st\<lparr>answers := answers st @ [newAnswer], currentAnswer := []\<rparr>;
          st2 = (if int (call_index c) < int (length EXCEL_QUESTIONS) - 1
                 then st1\<lparr>currentQuestionIndex := currentQuestionIndex st1 + 1\<rparr>
                 else st1\<lparr>interviewStage := Q_report\<rparr>)
      in st2\<lparr>isLoading := False\<rparr>)\<close>

definition startAssessment :: "int \<Rightarrow> question_session \<Rightarrow> question_session" where
  \<open>startAssessment now st =
     (if apiKey st = [] then st\<lparr>showApiKeyInput := True\<rparr>
      else st\<lparr>startTime := Some now, interviewStage := Q_interview\<rparr>)\<close>


text \<open>
  The events of the page, each with the element it arrives at. An element takes an event only
  on the screen that renders it and while it is not disabled; elsewhere the event changes
  nothing. Reloading the page (the only action of the report screen) starts a new session
  from \<open>question_session_init\<close> and is not an event of this one.
\<close>

datatype question_event =
    Q_key_input string
  | Q_start_click int
  | Q_answer_input string
  | Q_answer_paste int
  | Q_visibility bool int
  | Q_submit_click
  | Q_evaluated nat fetch_outcome

definition remove_nth :: "nat \<Rightarrow> 'a list \<Rightarrow> 'a list" where
  \<open>remove_nth k xs = take k xs @ drop (Suc k) xs\<close>

text \<open>
  One event. \<open>Q_evaluated k out\<close> resolves the \<open>k\<close>-th suspended call, whose request came to
  \<open>out\<close>. The result is \<open>None\<close> only where the evaluation is not of the declared type.
\<close>

fun question_step :: "question_event \<Rightarrow> question_session \<Rightarrow> question_session option" where
  \<open>question_step (Q_key_input k) st =
     Some (if interviewStage st = Q_welcome \<and> showApiKeyInput st then st\<lparr>apiKey := k\<rparr> else st)\<close>
| \<open>question_step (Q_start_click now) st =
     Some (if interviewStage st = Q_welcome \<and> \<not> (showApiKeyInput st \<and> apiKey st = [])
           then startAssessment now st else st)\<close>
| \<open>question_step (Q_answer_input s) st =
     Some (if interviewStage st = Q_interview \<and> \<not> isLoading st then st\<lparr>currentAnswer := s\<rparr>
           else st)\<close>
| \<open>question_step (Q_answer_paste now) st =
     Some (if interviewStage st = Q_interview \<and> \<not> isLoading st then handlePaste now st else st)\<close>
| \<open>question_step (Q_visibility hidden now) st = Some (handleVisibilityChange hidden now st)\<close>
| \<open>question_step Q_submit_click st =
     Some (if interviewStage st = Q_interview
              \<and> \<not> (js_trim (currentAnswer st) = [] \<or> isLoading st)
           then handleSubmitAnswer_begin st else st)\<close>
| \<open>question_step (Q_evaluated k out) st =
     (case js_index (suspended st) k of
        None \<Rightarrow> Some st
      | Some c \<Rightarrow>
          (case typed_evaluation
                  (fst (evaluateAnswer (call_apiKey c) (call_question c) (call_answer c)
                          (answering out))) of
             None \<Rightarrow> None
           | Some ev \<Rightarrow>
               Some (handleSubmitAnswer_resume c ev
                       (st\<lparr>suspended := remove_nth k (suspended st)\<rparr>))))\<close>

fun question_run :: "question_event list \<Rightarrow> question_session \<Rightarrow> question_session option" where
  \<open>question_run [] st = Some st\<close>
| \<open>question_run (e # es) st =
     (case question_step e st of None \<Rightarrow> None | Some st' \<Rightarrow> question_run es st')\<close>

section \<open>The task session (InteractiveExcelAssessment.tsx)\<close>

datatype assessment_stage = T_welcome | T_tasks | T_report

record TaskResult =
  taskId :: nat
  task :: string
  completed :: bool
  score :: rat
  justification :: string
  actions :: "SpreadsheetAction list"
  timeSpent :: int

text \<open>A call of \<^verbatim>\<open>handleTaskComplete\<close> suspended at \<^verbatim>\<open>await evaluateTask(...)\<close>.\<close>

record complete_call =
  call_task :: Task
  call_taskIndex :: nat
  call_actions :: "SpreadsheetAction list"
  call_timeSpent :: int
  call_key :: string

text \<open>
  The state of the component. The grid (\<^verbatim>\<open>spreadsheetData\<close>, \<^verbatim>\<open>selectedCell\<close>, \<^verbatim>\<open>cellFormula\<close>)
  feeds the rendering and the prompt text only and is left out; a cell edit arrives with the
  old value that the handler read from the grid.
\<close>

record task_session =
  assessmentStage :: assessment_stage
  currentTaskIndex :: nat
  taskResults :: "TaskResult list"
  spreadsheetActions :: "SpreadsheetAction list"
  cheatingFlags :: "CheatingFlag list"
  taskStartTime :: "int option"
  timeRemaining :: int
  isLoading :: bool
  apiKey :: string
  showApiKeyInput :: bool
  suspended :: "complete_call list"

definition task_session_init :: task_session where
  \<open>task_session_init =
     \<lparr>assessmentStage = T_welcome, currentTaskIndex = 0, taskResults = [],
      spreadsheetActions = [], cheatingFlags = [], taskStartTime = None, timeRemaining = 0,
      isLoading = False, apiKey = [], showApiKeyInput = False, suspended = []\<rparr>\<close>

definition handleVisibilityChange_tasks :: "bool \<Rightarrow> int \<Rightarrow> task_session \<Rightarrow> task_session" where
  \<open>handleVisibilityChange_tasks hidden now st =
     (if hidden \<and> assessmentStage st = T_tasks then
        st\<lparr>cheatingFlags := cheatingFlags st @
             [\<lparr>CheatingFlag.type = tab_switch, CheatingFlag.timestamp = now\<rparr>]\<rparr>
      else st)\<close>

text \<open>The \<^verbatim>\<open>onPaste\<close> handler written inline on every cell input of the grid.\<close>

definition cell_onPaste :: "int \<Rightarrow> task_session \<Rightarrow> task_session" where
  \<open>cell_onPaste now st =
     st\<lparr>cheatingFlags := cheatingFlags st @
          [\<lparr>CheatingFlag.type = paste, CheatingFlag.timestamp = now\<rparr>]\<rparr>\<close>

definition handleCellEdit ::
  "int \<Rightarrow> string \<Rightarrow> string \<Rightarrow> string \<Rightarrow> task_session \<Rightarrow> task_session" where
  \<open>handleCellEdit now cellName old new st =
     st\<lparr>spreadsheetActions := spreadsheetActions st @
          [\<lparr>timestamp = now,
            type = (if take 1 new = ''='' then formula_entered else cell_edit),
            cell = cellName, oldValue = old, newValue = new\<rparr>]\<rparr>\<close>

text \<open>
  \<^verbatim>\<open>handleTaskComplete\<close> up to its \<^verbatim>\<open>await\<close>. Past the last task \<^verbatim>\<open>currentTask\<close> is
  \<^verbatim>\<open>undefined\<close> and \<^verbatim>\<open>currentTask.id\<close> throws after \<^verbatim>\<open>setIsLoading(true)\<close>: nothing is suspended.
\<close>

definition handleTaskComplete_begin :: "int \<Rightarrow> task_session \<Rightarrow> task_session" where
  \<open>handleTaskComplete_begin now st =
     (case taskStartTime st of
        None \<Rightarrow> st
      | Some t0 \<Rightarrow>
          (case js_index EXCEL_TASKS (currentTaskIndex st) of
             None \<Rightarrow> st\<lparr>isLoading := True\<rparr>
           | Some currentTask \<Rightarrow>
               st\<lparr>isLoading := True,
                  suspended := suspended st @
                    [\<lparr>call_task = currentTask,
                      call_taskIndex = currentTaskIndex st,
                      call_actions = filter (\<lambda>a. t0 \<le> timestamp a) (spreadsheetActions st),
                      call_timeSpent = Math_round (of_int (now - t0) / 1000),
                      call_key = apiKey st\<rparr>]\<rparr>))\<close>

definition startNextTask :: "int \<Rightarrow> nat \<Rightarrow> task_session \<Rightarrow> task_session" where
  \<open>startNextTask now closureIndex st =
     (case js_index EXCEL_TASKS (closureIndex + 1) of
        None \<Rightarrow> st
      | Some nextTask \<Rightarrow> st\<lparr>taskStartTime := Some now, timeRemaining := timeLimit nextTask\<rparr>)\<close>

text \<open>\<^verbatim>\<open>handleTaskComplete\<close> from the resolved evaluation on. \<^verbatim>\<open>currentTaskIndex\<close> in the
  comparison and in \<^verbatim>\<open>startNextTask\<close> is the value of the closure; the two functional
  updates, of the results and of the index, act on the state as it is by then.\<close>

definition handleTaskComplete_resume ::
  "int \<Rightarrow> complete_call \<Rightarrow> rat \<times> string \<Rightarrow> task_session \<Rightarrow> task_session" where
  \<open>handleTaskComplete_resume now c ev st =
     (let result = \<lparr>taskId = id' (call_task c), task = description (call_task c),
                    completed = (6 \<le> fst ev), score = fst ev, justification = snd ev,
                    actions = call_actions c, timeSpent = call_timeSpent c\<rparr>;
          st1 = st\<lparr>taskResults := taskResults st @ [result]\<rparr>;
          st2 = (if int (call_taskIndex c) < int (length EXCEL_TASKS) - 1
                 then startNextTask now (call_taskIndex c)
                        (st1\<lparr>currentTaskIndex := currentTaskIndex st1 + 1\<rparr>)
                 else st1\<lparr>assessmentStage := T_report\<rparr>)
      in st2\<lparr>isLoading := False\<rparr>)\<close>

definition startAssessment_tasks :: "int \<Rightarrow> task_session \<Rightarrow> task_session" where
  \<open>startAssessment_tasks now st =
     (if apiKey st = [] then st\<lparr>showApiKeyInput := True\<rparr>
      else st\<lparr>assessmentStage := T_tasks, taskStartTime := Some now,
              timeRemaining := timeLimit (EXCEL_TASKS ! 0)\<rparr>)\<close>

text \<open>
  The callback of the one-second interval, which exists while the stage is \<^verbatim>\<open>tasks\<close> and
  \<^verbatim>\<open>timeRemaining > 0\<close>. The effect sets the interval up again at every change of
  \<^verbatim>\<open>timeRemaining\<close>, that is at every tick, so the \<^verbatim>\<open>handleTaskComplete\<close> it calls is taken here
  on the current state.
\<close>

definition timer_tick :: "int \<Rightarrow> task_session \<Rightarrow> task_session" where
  \<open>timer_tick now st =
     (if assessmentStage st = T_tasks \<and> 0 < timeRemaining st then
        (if timeRemaining st \<le> 1 then (handleTaskComplete_begin now st)\<lparr>timeRemaining := 0\<rparr>
         else st\<lparr>timeRemaining := timeRemaining st - 1\<rparr>)
      else st)\<close>


text \<open>
  The events of the page. The welcome screen renders the key input and the start button; the
  tasks screen renders the Complete Task button (disabled while \<^verbatim>\<open>isLoading\<close>), the formula
  bar (an input with \<^verbatim>\<open>onChange\<close> and \<^verbatim>\<open>onKeyDown\<close>) and the cell inputs (with \<^verbatim>\<open>onChange\<close> and
  \<^verbatim>\<open>onPaste\<close>); the report screen renders the reload button only.
\<close>

datatype task_event =
    T_key_input string
  | T_start_click int
  | T_tick int
  | T_complete_click int
  | T_evaluated nat fetch_outcome int
  | T_visibility bool int
  | T_cell_paste int
  | T_formula_bar_paste int
  | T_cell_edit int string string string

fun task_step :: "task_event \<Rightarrow> task_session \<Rightarrow> task_session option" where
  \<open>task_step (T_key_input k) st =
     Some (if assessmentStage st = T_welcome \<and> showApiKeyInput st then st\<lparr>apiKey := k\<rparr> else st)\<close>
| \<open>task_step (T_start_click now) st =
     Some (if assessmentStage st = T_welcome \<and> \<not> (showApiKeyInput st \<and> apiKey st = [])
           then startAssessment_tasks now st else st)\<close>
| \<open>task_step (T_tick now) st = Some (timer_tick now st)\<close>
| \<open>task_step (T_complete_click now) st =
     Some (if assessmentStage st = T_tasks \<and> \<not> isLoading st
           then handleTaskComplete_begin now st else st)\<close>
| \<open>task_step (T_evaluated k out now) st =
     (case js_index (suspended st) k of
        None \<Rightarrow> Some st
      | Some c \<Rightarrow>
          (case typed_evaluation
                  (fst (evaluateTask (call_key c) (id' (call_task c)) (call_actions c)
                          (answering out))) of
             None \<Rightarrow> None
           | Some ev \<Rightarrow>
               Some (handleTaskComplete_resume now c ev
                       (st\<lparr>suspended := remove_nth k (suspended st)\<rparr>))))\<close>
| \<open>task_step (T_visibility hidden now) st = Some (handleVisibilityChange_tasks hidden now st)\<close>
| \<open>task_step (T_cell_paste now) st =
     Some (if assessmentStage st = T_tasks then cell_onPaste now st else st)\<close>
| \<open>task_step (T_formula_bar_paste now) st = Some st\<close>
| \<open>task_step (T_cell_edit now cellName old new) st =
     Some (if assessmentStage st = T_tasks then handleCellEdit now cellName old new st else st)\<close>

fun task_run :: "task_event list \<Rightarrow> task_session \<Rightarrow> task_session option" where
  \<open>task_run [] st = Some st\<close>
| \<open>task_run (e # es) st =
     (case task_step e st of None \<Rightarrow> None | Some st' \<Rightarrow> task_run es st')\<close>

section \<open>Scenarios and classifications used in the statements\<close>

text \<open>The outcomes that end in the outer \<^verbatim>\<open>catch\<close> of an adapter.\<close>

definition hard_failure :: "fetch_outcome \<Rightarrow> bool" where
  \<open>hard_failure out =
     (out = Fetch_rejected \<or> out = Status_not_ok \<or> out = Body_not_json \<or> out = Path_missing)\<close>

text \<open>The outcomes that end in the inner \<^verbatim>\<open>catch\<close>: no text, a text that \<^verbatim>\<open>JSON.parse\<close> rejects
  (after \<open>prepare\<close>, the fence removal of \<^verbatim>\<open>evaluateTask\<close> or nothing), or the text \<^verbatim>\<open>null\<close>.\<close>

definition unusable_text :: "(string \<Rightarrow> string) \<Rightarrow> fetch_outcome \<Rightarrow> bool" where
  \<open>unusable_text prepare out =
     (case out of
        Text_undefined \<Rightarrow> True
      | Text t \<Rightarrow> JSON_parse (prepare t) = None \<or> JSON_parse (prepare t) = Some JNull
      | _ \<Rightarrow> False)\<close>

definition keep_text :: "string \<Rightarrow> string" where
  \<open>keep_text t = t\<close>

text \<open>The range that the specification gives for a score: an integer from 0 to 10.\<close>

definition spec_score_in_range :: "json \<Rightarrow> bool" where
  \<open>spec_score_in_range v =
     (case v of JNum q \<Rightarrow> of_int \<lfloor>q\<rfloor> = q \<and> 0 \<le> q \<and> q \<le> 10 | _ \<Rightarrow> False)\<close>

definition response_ok8 :: fetch_outcome where
  \<open>response_ok8 = Text ''{"score": 8, "justification": "ok"}''\<close>

text \<open>The same object inside a fenced code block, as language models often answer.\<close>

definition fenced_ok8 :: string where
  \<open>fenced_ok8 =
     ''```json'' @ [CHR 0x0A] @ ''{"score": 8, "justification": "ok"}'' @ [CHR 0x0A] @ ''```''\<close>

text \<open>A task session is started: the first click asks for the key, the second starts.\<close>

definition start_events :: "task_event list" where
  \<open>start_events = [T_start_click 0, T_key_input ''key'', T_start_click 0]\<close>

text \<open>\<open>n\<close> ticks of the countdown, one second apart, after the time \<open>t\<close>.\<close>

definition ticks :: "int \<Rightarrow> nat \<Rightarrow> task_event list" where
  \<open>ticks t n = map (\<lambda>i. T_tick (t + 1000 * int i)) [1..<Suc n]\<close>

text \<open>With one second left the user clicks Complete Task; the countdown reaches zero before
  the evaluation has resolved; then the two evaluations resolve.\<close>

definition expiry_race :: "int \<Rightarrow> task_event list" where
  \<open>expiry_race t =
     [T_complete_click (t + 500), T_tick (t + 1000),
      T_evaluated 0 response_ok8 (t + 2000), T_evaluated 0 response_ok8 (t + 2500)]\<close>

text \<open>The first four tasks, each completed by a click and evaluated a second later.\<close>

definition four_tasks_done :: "task_event list" where
  \<open>four_tasks_done =
     [T_complete_click 1000, T_evaluated 0 response_ok8 2000,
      T_complete_click 3000, T_evaluated 0 response_ok8 4000,
      T_complete_click 5000, T_evaluated 0 response_ok8 6000,
      T_complete_click 7000, T_evaluated 0 response_ok8 8000]\<close>

definition task_observe :: "task_session \<Rightarrow> assessment_stage \<times> nat list \<times> nat \<times> int" where
  \<open>task_observe st =
     (assessmentStage st, map taskId (taskResults st), currentTaskIndex st, timeRemaining st)\<close>

definition task_flags :: "task_session \<Rightarrow> assessment_stage \<times> CheatingFlag list" where
  \<open>task_flags st = (assessmentStage st, cheatingFlags st)\<close>





text \<open>Two responses that parse, with scores outside the scale.\<close>

definition answer_forty_two :: string where
  \<open>answer_forty_two = ''{"score": 42, "justification": "beyond the scale"}''\<close>

definition task_grade_text :: string where
  \<open>task_grade_text = ''{"score": "A+", "justification": "a grade, not a number"}''\<close>

text \<open>A space, a no-break space (U+00A0), a tab, an ideographic space (U+3000) and a line
  feed.\<close>

definition blank_text :: "string list" where
  \<open>blank_text =
     [[CHR 0x20], [CHR 0xC2, CHR 0xA0], [CHR 0x09], [CHR 0xE3, CHR 0x80, CHR 0x80], [CHR 0x0A]]\<close>

definition is_white_space :: "string \<Rightarrow> bool" where
  \<open>is_white_space w = (w \<in> set white_space)\<close>

definition blank_answer_session :: question_session where
  \<open>blank_answer_session =
     question_session_init
       \<lparr>interviewStage := Q_interview, question_session.apiKey := ''key'',
        currentAnswer := concat blank_text\<rparr>\<close>

text \<open>
  The invariant of the question session: no record and no call before the start; while the
  interview runs, as many records as the index says; all records at the report; at most one
  suspended call, only while loading, and for the current question; every record at the
  position of its question.
\<close>

definition question_inv :: "question_session \<Rightarrow> bool" where
  \<open>question_inv st =
     ((interviewStage st = Q_welcome \<longrightarrow>
         answers st = [] \<and> currentQuestionIndex st = 0 \<and> question_session.suspended st = [])
      \<and> (interviewStage st = Q_interview \<longrightarrow>
         length (answers st) = currentQuestionIndex st
         \<and> currentQuestionIndex st < length EXCEL_QUESTIONS)
      \<and> (interviewStage st = Q_report \<longrightarrow>
         length (answers st) = length EXCEL_QUESTIONS \<and> question_session.suspended st = [])
      \<and> length (question_session.suspended st) \<le> 1
      \<and> (question_session.suspended st \<noteq> [] \<longrightarrow> question_session.isLoading st)
      \<and> (\<forall>c\<in>set (question_session.suspended st).
            call_index c = currentQuestionIndex st
            \<and> call_question c = js_index EXCEL_QUESTIONS (call_index c))
      \<and> (\<forall>i<length (answers st). question (answers st ! i) = js_index EXCEL_QUESTIONS i))\<close>

section \<open>Basic facts\<close>

lemma length_EXCEL_QUESTIONS: \<open>length EXCEL_QUESTIONS = 5\<close>
  by (simp add: EXCEL_QUESTIONS_def)

lemma length_EXCEL_TASKS: \<open>length EXCEL_TASKS = 5\<close>
  by (simp add: EXCEL_TASKS_def)


lemma white_space_match:
  assumes w: \<open>w \<in> set white_space\<close>
  shows \<open>match_length white_space (w @ t) = length w \<and> w \<noteq> []\<close>
  using w unfolding white_space_def match_length_def
  by (elim set_ConsD [elim_format] disjE; simp)

lemma drop_matches_skip:
  \<open>length xs = k \<Longrightarrow> drop_matches pats k (xs @ t) = drop_matches pats 0 t\<close>
proof (induction xs arbitrary: k)
  case Nil
  then show ?case by simp
next
  case (Cons x xs)
  then show ?case by (cases k) auto
qed

lemma drop_matches_white_space:
  \<open>set ws \<subseteq> set white_space \<Longrightarrow> drop_matches white_space 0 (concat ws) = []\<close>
proof (induction ws)
  case Nil
  show ?case by simp
next
  case (Cons w ws)
  then have w: \<open>w \<in> set white_space\<close> by simp
  from white_space_match [OF w, of \<open>concat ws\<close>]
  obtain c cs where wc: \<open>w = c # cs\<close>
    and m: \<open>match_length white_space (w @ concat ws) = length w\<close>
    by (cases w) auto
  have \<open>drop_matches white_space 0 (concat (w # ws))
      = drop_matches white_space (length cs) (cs @ concat ws)\<close>
    using m by (simp add: wc)
  also have \<open>\<dots> = drop_matches white_space 0 (concat ws)\<close>
    by (rule drop_matches_skip) simp
  also have \<open>\<dots> = []\<close> using Cons by simp
  finally show ?case .
qed

lemma js_trim_blank: \<open>set ws \<subseteq> set white_space \<Longrightarrow> js_trim (concat ws) = []\<close>
  by (simp add: js_trim_def drop_matches_white_space)



lemma startNextTask_keeps:
  \<open>currentTaskIndex (startNextTask now i st) = currentTaskIndex st
   \<and> assessmentStage (startNextTask now i st) = assessmentStage st
   \<and> taskResults (startNextTask now i st) = taskResults st
   \<and> task_session.cheatingFlags (startNextTask now i st) = task_session.cheatingFlags st
   \<and> task_session.suspended (startNextTask now i st) = task_session.suspended st\<close>
  by (simp add: startNextTask_def split: option.split)

section \<open>The depth bound of the parser\<close>

text \<open>
  Every parsing function returns a rest that is not longer than its input, and from the depth
  \<open>2 * length s + 1\<close> on (one more for elements and members) a greater depth does not change
  the result. So the depth at which \<open>JSON_parse\<close> starts stands for any depth: a text is
  rejected for its syntax only.
\<close>

lemma skip_ws_length: \<open>length (skip_ws s) \<le> length s\<close>
  by (simp add: skip_ws_def length_dropWhile_le)

lemma expect_length: \<open>expect c s = Some r \<Longrightarrow> length s = Suc (length r)\<close>
  by (cases s) (auto simp: expect_def split: if_splits)

lemma expect_lit_length: \<open>expect_lit l s = Some r \<Longrightarrow> length r \<le> length s\<close>
  by (auto simp: expect_lit_def split: if_splits)

lemma parse_chars_length: \<open>parse_chars n s = Some (k, r) \<Longrightarrow> length r \<le> length s\<close>
proof (induction n arbitrary: s k r)
  case 0
  then show ?case by simp
next
  case (Suc n)
  show ?case
  proof (cases s)
    case Nil
    with Suc.prems show ?thesis by simp
  next
    case (Cons c cs)
    with Suc.prems Suc.IH show ?thesis
      by (fastforce split: if_splits list.splits option.splits)
  qed
qed

lemma dropWhile_length_Suc:
  \<open>length (dropWhile P xs) \<le> Suc (length xs)\<close>
  \<open>length (dropWhile P xs) \<le> Suc (Suc (length xs))\<close>
  using length_dropWhile_le [of P xs] by simp_all

lemma parse_int_part_length: \<open>parse_int_part a = Some (x, b) \<Longrightarrow> length b \<le> length a\<close>
  by (cases a)
     (auto simp: parse_int_part_def split: if_splits intro: le_SucI length_dropWhile_le)

lemma parse_frac_length: \<open>parse_frac a = Some (x, b) \<Longrightarrow> length b \<le> length a\<close>
  by (auto simp: parse_frac_def dropWhile_length_Suc split: option.splits if_splits
      dest!: expect_length)

lemma parse_exp_length: \<open>parse_exp a = Some (e, b) \<Longrightarrow> length b \<le> length a\<close>
  by (cases a)
     (auto simp: parse_exp_def Let_def dropWhile_length_Suc split: option.splits if_splits
      dest!: expect_length)

lemma parse_number_length: \<open>parse_number s = Some (q, r) \<Longrightarrow> length r \<le> length s\<close>
proof -
  assume p: \<open>parse_number s = Some (q, r)\<close>
  define s1 where \<open>s1 = (case expect (CHR ''-'') s of Some r \<Rightarrow> r | None \<Rightarrow> s)\<close>
  have sign: \<open>length s1 \<le> length s\<close>
    by (auto simp: s1_def split: option.splits dest!: expect_length)
  from p obtain ip s2 fp s3 e where
    \<open>parse_int_part s1 = Some (ip, s2)\<close> \<open>parse_frac s2 = Some (fp, s3)\<close>
    \<open>parse_exp s3 = Some (e, r)\<close>
    by (auto simp: parse_number_def Let_def s1_def split: option.splits)
  then have \<open>length s2 \<le> length s1\<close> \<open>length s3 \<le> length s2\<close> \<open>length r \<le> length s3\<close>
    by (simp_all add: parse_int_part_length parse_frac_length parse_exp_length)
  with sign show ?thesis by linarith
qed

lemma parse_scalar_length: \<open>parse_scalar s = Some (v, r) \<Longrightarrow> length r \<le> length s\<close>
proof (cases s)
  case Nil
  then show \<open>parse_scalar s = Some (v, r) \<Longrightarrow> ?thesis\<close> by (simp add: parse_scalar_def)
next
  case (Cons c cs)
  assume \<open>parse_scalar s = Some (v, r)\<close>
  with Cons have \<open>(\<exists>k. parse_chars (length cs) cs = Some (k, r)) \<or> (\<exists>l. expect_lit l cs = Some r)
      \<or> (\<exists>q. parse_number s = Some (q, r))\<close>
    by (auto simp: parse_scalar_def split: if_splits option.splits)
  with Cons show ?thesis
    using parse_chars_length [of \<open>length cs\<close> cs _ r] expect_lit_length [of _ cs r]
      parse_number_length [of s _ r]
    by (auto intro: le_SucI)
qed

lemma parse_lengths:
  \<open>(\<forall>s v r. parse_value n s = Some (v, r) \<longrightarrow> length r \<le> length s)
   \<and> (\<forall>s vs r. parse_elements n s = Some (vs, r) \<longrightarrow> length r \<le> length s)
   \<and> (\<forall>s kvs r. parse_members n s = Some (kvs, r) \<longrightarrow> length r \<le> length s)\<close>
proof (induction n)
  case 0
  show ?case by simp
next
  case (Suc n)
  then have v: \<open>\<And>s v r. parse_value n s = Some (v, r) \<Longrightarrow> length r \<le> length s\<close>
    and e: \<open>\<And>s vs r. parse_elements n s = Some (vs, r) \<Longrightarrow> length r \<le> length s\<close>
    and m: \<open>\<And>s kvs r. parse_members n s = Some (kvs, r) \<Longrightarrow> length r \<le> length s\<close>
    by blast+
  have V: \<open>length r \<le> length s\<close> if p: \<open>parse_value (Suc n) s = Some (v', r)\<close> for s v' r
  proof (cases s)
    case Nil
    with p show ?thesis by simp
  next
    case (Cons c cs)
    have cs: \<open>length (skip_ws cs) \<le> length cs\<close> by (rule skip_ws_length)
    from p Cons consider
        (close) x where \<open>expect x (skip_ws cs) = Some r\<close>
      | (members) kvs where \<open>parse_members n (skip_ws cs) = Some (kvs, r)\<close>
      | (elements) vs where \<open>parse_elements n (skip_ws cs) = Some (vs, r)\<close>
      | (scalar) \<open>parse_scalar s = Some (v', r)\<close>
      by (auto split: if_splits option.splits)
    then show ?thesis
    proof cases
      case close
      from expect_length [OF this] cs Cons show ?thesis by simp
    next
      case members
      from m [OF this] cs Cons show ?thesis by simp
    next
      case elements
      from e [OF this] cs Cons show ?thesis by simp
    next
      case scalar
      then show ?thesis by (rule parse_scalar_length)
    qed
  qed
  have after: \<open>length r \<le> length s\<close>
    if r0: \<open>length r0 \<le> length s\<close>
      and rest: \<open>(\<exists>x r1. expect x (skip_ws r0) = Some r1 \<and> length r \<le> length (skip_ws r1))
             \<or> (\<exists>x. expect x (skip_ws r0) = Some r)\<close>
    for r r0 :: string and s :: string
  proof -
    have sk: \<open>length (skip_ws r0) \<le> length s\<close>
      using skip_ws_length [of r0] r0 by linarith
    from rest show ?thesis
    proof (elim disjE exE conjE)
      fix x r1
      assume a: \<open>expect x (skip_ws r0) = Some r1\<close> \<open>length r \<le> length (skip_ws r1)\<close>
      from expect_length [OF a(1)] skip_ws_length [of r1] a(2) sk show ?thesis by linarith
    next
      fix x
      assume a: \<open>expect x (skip_ws r0) = Some r\<close>
      from expect_length [OF a] sk show ?thesis by linarith
    qed
  qed
  have E: \<open>length r \<le> length s\<close> if p: \<open>parse_elements (Suc n) s = Some (vs, r)\<close> for s vs r
  proof -
    from p obtain v0 r0 where p0: \<open>parse_value n s = Some (v0, r0)\<close>
      by (auto split: option.splits)
    from p p0 consider
        (more) r1 vs' where \<open>expect (CHR '','') (skip_ws r0) = Some r1\<close>
          \<open>parse_elements n (skip_ws r1) = Some (vs', r)\<close>
      | (last) \<open>expect (CHR '']'') (skip_ws r0) = Some r\<close>
      by (auto split: option.splits)
    then have \<open>(\<exists>x r1. expect x (skip_ws r0) = Some r1 \<and> length r \<le> length (skip_ws r1))
             \<or> (\<exists>x. expect x (skip_ws r0) = Some r)\<close>
    proof cases
      case more
      from more(1) e [OF more(2)] show ?thesis by blast
    next
      case last
      then show ?thesis by blast
    qed
    with v [OF p0] show ?thesis by (rule after)
  qed
  have M: \<open>length r \<le> length s\<close> if p: \<open>parse_members (Suc n) s = Some (kvs, r)\<close> for s kvs r
  proof -
    from p obtain s1 k s2 s3 v0 r0 where p0: \<open>expect (CHR 0x22) s = Some s1\<close>
      \<open>parse_chars (length s1) s1 = Some (k, s2)\<close> \<open>expect (CHR '':'') (skip_ws s2) = Some s3\<close>
      \<open>parse_value n (skip_ws s3) = Some (v0, r0)\<close>
      by (auto split: option.splits)
    have \<open>length s1 \<le> length s\<close> using expect_length [OF p0(1)] by simp
    moreover have \<open>length s2 \<le> length s1\<close> using parse_chars_length [OF p0(2)] .
    moreover have \<open>length s3 \<le> length s2\<close>
      using expect_length [OF p0(3)] skip_ws_length [of s2] by simp
    moreover have \<open>length r0 \<le> length s3\<close>
      using v [OF p0(4)] skip_ws_length [of s3] by simp
    ultimately have r0: \<open>length r0 \<le> length s\<close> by linarith
    from p p0 consider
        (more) r1 kvs' where \<open>expect (CHR '','') (skip_ws r0) = Some r1\<close>
          \<open>parse_members n (skip_ws r1) = Some (kvs', r)\<close>
      | (last) \<open>expect (CHR ''}'') (skip_ws r0) = Some r\<close>
      by (auto split: option.splits)
    then have \<open>(\<exists>x r1. expect x (skip_ws r0) = Some r1 \<and> length r \<le> length (skip_ws r1))
             \<or> (\<exists>x. expect x (skip_ws r0) = Some r)\<close>
    proof cases
      case more
      from more(1) m [OF more(2)] show ?thesis by blast
    next
      case last
      then show ?thesis by blast
    qed
    with r0 show ?thesis by (rule after)
  qed
  from V E M show ?case by blast
qed

lemma parse_value_length: \<open>parse_value n s = Some (v, r) \<Longrightarrow> length r \<le> length s\<close>
  using parse_lengths [of n] by blast

lemma depth_step:
  \<open>(\<forall>s. 2 * length s + 1 \<le> n \<longrightarrow> parse_value (Suc n) s = parse_value n s)
   \<and> (\<forall>s. 2 * length s + 2 \<le> n \<longrightarrow> parse_elements (Suc n) s = parse_elements n s)
   \<and> (\<forall>s. 2 * length s + 2 \<le> n \<longrightarrow> parse_members (Suc n) s = parse_members n s)\<close>
proof (induction n)
  case 0
  show ?case by simp
next
  case (Suc n)
  then have v: \<open>\<And>s. 2 * length s + 1 \<le> n \<Longrightarrow> parse_value (Suc n) s = parse_value n s\<close>
    and e: \<open>\<And>s. 2 * length s + 2 \<le> n \<Longrightarrow> parse_elements (Suc n) s = parse_elements n s\<close>
    and m: \<open>\<And>s. 2 * length s + 2 \<le> n \<Longrightarrow> parse_members (Suc n) s = parse_members n s\<close>
    by blast+
  have V: \<open>parse_value (Suc (Suc n)) s = parse_value (Suc n) s\<close>
    if le: \<open>2 * length s + 1 \<le> Suc n\<close> for s
  proof (cases s)
    case Nil
    then show ?thesis by simp
  next
    case (Cons c cs)
    with le skip_ws_length [of cs] have \<open>2 * length (skip_ws cs) + 2 \<le> n\<close> by simp
    then have em: \<open>parse_elements (Suc n) (skip_ws cs) = parse_elements n (skip_ws cs)\<close>
      \<open>parse_members (Suc n) (skip_ws cs) = parse_members n (skip_ws cs)\<close>
      by (rule e, rule m)
    show ?thesis
      unfolding parse_value.simps(2) [of \<open>Suc n\<close>] parse_value.simps(2) [of n] Cons list.case em
      by (rule refl)
  qed
  have next_small: \<open>2 * length (skip_ws r1) + 2 \<le> n\<close>
    if \<open>2 * length s + 2 \<le> Suc n\<close> \<open>length r0 \<le> length s\<close>
      \<open>expect x (skip_ws r0) = Some r1\<close> for s r0 r1 :: string and x
    using that skip_ws_length [of r0] skip_ws_length [of r1] expect_length [of x \<open>skip_ws r0\<close> r1]
    by linarith
  have E: \<open>parse_elements (Suc (Suc n)) s = parse_elements (Suc n) s\<close>
    if le: \<open>2 * length s + 2 \<le> Suc n\<close> for s
  proof -
    note eqs = parse_elements.simps(2) [of \<open>Suc n\<close>] parse_elements.simps(2) [of n]
      option.case prod.case
    from le have v': \<open>parse_value (Suc n) s = parse_value n s\<close>
      by (intro v) simp
    show ?thesis
    proof (cases \<open>parse_value n s\<close>)
      case None
      show ?thesis unfolding eqs v' None by (rule refl)
    next
      case (Some p)
      obtain v0 r0 where p: \<open>p = (v0, r0)\<close> by (cases p)
      note val = Some [unfolded p]
      show ?thesis
      proof (cases \<open>expect (CHR '','') (skip_ws r0)\<close>)
        case None
        show ?thesis unfolding eqs v' val None by (rule refl)
      next
        case (Some r1)
        from next_small [OF le parse_value_length [OF val] Some]
        have \<open>parse_elements (Suc n) (skip_ws r1) = parse_elements n (skip_ws r1)\<close>
          by (rule e)
        then show ?thesis unfolding eqs v' val Some by (rule arg_cong)
      qed
    qed
  qed
  have M: \<open>parse_members (Suc (Suc n)) s = parse_members (Suc n) s\<close>
    if le: \<open>2 * length s + 2 \<le> Suc n\<close> for s
  proof -
    note eqs = parse_members.simps(2) [of \<open>Suc n\<close>] parse_members.simps(2) [of n]
      option.case prod.case
    show ?thesis
    proof (cases \<open>expect (CHR 0x22) s\<close>)
      case None
      show ?thesis unfolding eqs None by (rule refl)
    next
      case (Some s1)
      note quote = Some
      show ?thesis
      proof (cases \<open>parse_chars (length s1) s1\<close>)
        case None
        show ?thesis unfolding eqs quote None by (rule refl)
      next
        case (Some pk)
        obtain k s2 where pk: \<open>pk = (k, s2)\<close> by (cases pk)
        note key = Some [unfolded pk]
        show ?thesis
        proof (cases \<open>expect (CHR '':'') (skip_ws s2)\<close>)
          case None
          show ?thesis unfolding eqs quote key None by (rule refl)
        next
          case (Some s3)
          note colon = Some
          from expect_length [OF quote] parse_chars_length [OF key] expect_length [OF colon]
            skip_ws_length [of s2] skip_ws_length [of s3]
          have len: \<open>length (skip_ws s3) + 2 \<le> length s\<close> by linarith
          with le have \<open>2 * length (skip_ws s3) + 1 \<le> n\<close> by linarith
          then have v': \<open>parse_value (Suc n) (skip_ws s3) = parse_value n (skip_ws s3)\<close>
            by (rule v)
          show ?thesis
          proof (cases \<open>parse_value n (skip_ws s3)\<close>)
            case None
            show ?thesis unfolding eqs quote key colon v' None by (rule refl)
          next
            case (Some p)
            obtain v0 r0 where p: \<open>p = (v0, r0)\<close> by (cases p)
            note val = Some [unfolded p]
            from parse_value_length [OF val] len have r0: \<open>length r0 \<le> length s\<close>
              by linarith
            show ?thesis
            proof (cases \<open>expect (CHR '','') (skip_ws r0)\<close>)
              case None
              show ?thesis unfolding eqs quote key colon v' val None by (rule refl)
            next
              case (Some r1)
              from next_small [OF le r0 Some]
              have \<open>parse_members (Suc n) (skip_ws r1) = parse_members n (skip_ws r1)\<close>
                by (rule m)
              then show ?thesis unfolding eqs quote key colon v' val Some
                by (rule arg_cong)
            qed
          qed
        qed
      qed
    qed
  qed
  from V E M show ?case by blast
qed

lemma parse_value_more_depth:
  \<open>2 * length s + 1 \<le> n \<Longrightarrow> parse_value (n + k) s = parse_value n s\<close>
proof (induction k)
  case 0
  show ?case by simp
next
  case (Suc k)
  then have \<open>2 * length s + 1 \<le> n + k\<close> by simp
  with depth_step [of \<open>n + k\<close>] have \<open>parse_value (Suc (n + k)) s = parse_value (n + k) s\<close>
    by blast
  with Suc show ?case by simp
qed

lemma JSON_parse_depth_enough:
  \<open>2 * length s + 2 \<le> n \<Longrightarrow>
     parse_value n (skip_ws s) = parse_value (2 * length s + 2) (skip_ws s)\<close>
proof -
  assume \<open>2 * length s + 2 \<le> n\<close>
  then obtain k where n: \<open>n = (2 * length s + 2) + k\<close>
    using le_Suc_ex by blast
  have \<open>2 * length (skip_ws s) + 1 \<le> 2 * length s + 2\<close>
    using skip_ws_length [of s] by simp
  from parse_value_more_depth [OF this, of k] n show ?thesis by simp
qed

section \<open>The evaluator adapters\<close>

text \<open>
  Claim C7. Called with no credential, either adapter returns score 0 with the justification
  that a key is required (the literal is \<^verbatim>\<open>API key required for evaluation\<close>) and sends no
  request: the list of requests is empty, whatever the service would have answered.
\<close>

theorem no_credential_no_request:
  \<open>evaluateAnswer [] q a net =
     (\<lparr>evaluation.score = JNum 0,
       evaluation.justification = JStr ''API key required for evaluation''\<rparr>, [])
   \<and> evaluateTask [] tid acts net =
     (\<lparr>evaluation.score = JNum 0,
       evaluation.justification = JStr ''API key required for evaluation''\<rparr>, [])\<close>
  by (simp add: evaluateAnswer_def evaluateTask_def)

text \<open>
  Claim C5. A response whose text is a valid score object inside a fenced code block:
  \<^verbatim>\<open>evaluateTask\<close> removes the fence and returns score 8 with the justification of the
  response, but \<^verbatim>\<open>evaluateAnswer\<close> hands the fenced text to \<^verbatim>\<open>JSON.parse\<close> as it is and returns
  the degraded result, score 5.
\<close>

theorem fenced_json_degraded_by_evaluateAnswer:
  \<open>fst (evaluateAnswer ''key'' (js_index EXCEL_QUESTIONS 0) ''It looks a value up''
          (answering (Text fenced_ok8))) =
     \<lparr>evaluation.score = JNum 5,
      evaluation.justification = JStr ''Answer received but could not be properly evaluated''\<rparr>
   \<and> fst (evaluateTask ''key'' 1 [] (answering (Text fenced_ok8))) =
     \<lparr>evaluation.score = JNum 8, evaluation.justification = JStr ''ok''\<rparr>\<close>
  by code_simp

text \<open>
  The fence removal of \<^verbatim>\<open>evaluateTask\<close> in general: a text with no backquote of its own, put
  between \<^verbatim>\<open>```json\<close> and \<^verbatim>\<open>```\<close> lines, comes back as it was.
\<close>

lemma no_fence_inside:
  \<open>CHR 0x60 \<notin> set t \<Longrightarrow> t \<noteq> [] \<Longrightarrow> fence_match (t @ CHR 0x0A # ''```'') = 0\<close>
proof -
  assume t: \<open>CHR 0x60 \<notin> set t\<close> \<open>t \<noteq> []\<close>
  then obtain c cs where tc: \<open>t = c # cs\<close> \<open>c \<noteq> CHR 0x60\<close> \<open>CHR 0x60 \<notin> set cs\<close>
    by (cases t) auto
  have \<open>take 3 (cs @ CHR 0x0A # ''```'') \<noteq> ''```''\<close>
  proof (cases cs)
    case Nil
    then show ?thesis by simp
  next
    case (Cons x xs)
    with tc show ?thesis by auto
  qed
  with tc show ?thesis
    by (simp add: fence_match_def)
qed

lemma replace_from_closing_fence:
  \<open>CHR 0x60 \<notin> set t \<Longrightarrow> replace_from 0 (t @ CHR 0x0A # ''```'') = t\<close>
proof (induction t)
  case Nil
  show ?case by (simp add: fence_match_def eval_nat_numeral)
next
  case (Cons c cs)
  then have \<open>fence_match ((c # cs) @ CHR 0x0A # ''```'') = 0\<close>
    by (intro no_fence_inside) auto
  with Cons show ?case by simp
qed

lemma replace_fences_fenced:
  \<open>CHR 0x60 \<notin> set t \<Longrightarrow>
     replace_fences (''```json'' @ [CHR 0x0A] @ t @ [CHR 0x0A] @ ''```'') = t\<close>
  using replace_from_closing_fence [of t]
  by (simp add: replace_fences_def fence_match_def eval_nat_numeral)

text \<open>
  Claim C8, as stated, fails: a response with score 11 gives the result score 11, and one
  with score -3.5 gives -3.5; neither is an integer from 0 to 10.
\<close>

theorem score_out_of_range_passes_through:
  \<open>evaluation.score (fst (evaluateAnswer ''key'' (js_index EXCEL_QUESTIONS 0) ''It looks a value up''
       (answering (Text ''{"score": 11, "justification": "great"}'')))) = JNum 11
   \<and> \<not> spec_score_in_range (JNum 11)
   \<and> evaluation.score (fst (evaluateTask ''key'' 1 []
       (answering (Text ''{"score": -3.5, "justification": "poor"}'')))) = JNum (- 7 / 2)
   \<and> \<not> spec_score_in_range (JNum (- 7 / 2))\<close>
  by code_simp

text \<open>
  The outcomes of an exchange fall into three classes: a hard failure, an unusable text, or a
  text that parses to a value other than \<^verbatim>\<open>null\<close>, whose \<^verbatim>\<open>score\<close> member can be read.
\<close>

lemma outcome_classes:
  \<open>hard_failure out \<or> unusable_text prepare out
   \<or> (\<exists>t p v. out = Text t \<and> JSON_parse (prepare t) = Some p \<and> js_prop p ''score'' = Some v)\<close>
proof (cases out)
  case (Text t)
  show ?thesis
  proof (cases \<open>JSON_parse (prepare t)\<close>)
    case None
    with Text show ?thesis by (simp add: unusable_text_def)
  next
    case (Some p)
    with Text show ?thesis by (cases p) (simp_all add: unusable_text_def)
  qed
qed (simp_all add: hard_failure_def unusable_text_def)

lemma response_score_hard:
  \<open>hard_failure out \<Longrightarrow>
     evaluation.score (evaluateAnswer_response out) = JNum 0
     \<and> evaluation.score (evaluateTask_response out) = JNum 0\<close>
  by (auto simp: hard_failure_def evaluateAnswer_response_def evaluateTask_response_def)

lemma response_score_unusable:
  \<open>unusable_text keep_text out \<Longrightarrow> evaluation.score (evaluateAnswer_response out) = JNum 5\<close>
  \<open>unusable_text replace_fences out \<Longrightarrow> evaluation.score (evaluateTask_response out) = JNum 5\<close>
  by (cases out;
      auto simp: unusable_text_def keep_text_def evaluateAnswer_response_def
        evaluateTask_response_def parsed_evaluation_def)+

lemma parsed_evaluation_score:
  \<open>js_prop p ''score'' = Some v \<Longrightarrow>
     \<exists>ev. parsed_evaluation u p = Some ev
       \<and> evaluation.score ev = (case v of None \<Rightarrow> JNum 0
                                 | Some s \<Rightarrow> if truthy (Some s) then s else JNum 0)\<close>
  by (cases p) (auto simp: parsed_evaluation_def js_or_def split: option.splits)

lemma response_score_parsed:
  \<open>JSON_parse t = Some p \<Longrightarrow> js_prop p ''score'' = Some v \<Longrightarrow>
     evaluation.score (evaluateAnswer_response (Text t))
       = (case v of None \<Rightarrow> JNum 0 | Some s \<Rightarrow> if truthy (Some s) then s else JNum 0)\<close>
  \<open>JSON_parse (replace_fences t) = Some p \<Longrightarrow> js_prop p ''score'' = Some v \<Longrightarrow>
     evaluation.score (evaluateTask_response (Text t))
       = (case v of None \<Rightarrow> JNum 0 | Some s \<Rightarrow> if truthy (Some s) then s else JNum 0)\<close>
  using parsed_evaluation_score [of p v \<open>''Unable to evaluate answer''\<close>]
    parsed_evaluation_score [of p v \<open>''Unable to evaluate task''\<close>]
  by (auto simp: evaluateAnswer_response_def evaluateTask_response_def)

text \<open>
  Claim C8, amended. The score that an adapter returns is fixed by the case at hand, and in
  none of them is it checked for its range or for being an integer:
  \<^item> with no key, and in \<^verbatim>\<open>evaluateTask\<close> for a task that is not in the list, it is 0;
  \<^item> when the exchange fails hard (the call is rejected, the status is not a success, the body
    is not JSON, the path to the text is missing) it is 0;
  \<^item> when the text is absent, is rejected by \<^verbatim>\<open>JSON.parse\<close> or is \<^verbatim>\<open>null\<close> it is 5;
  \<^item> otherwise the text parses to a value \<open>p\<close>, and the score is exactly the \<^verbatim>\<open>score\<close> member
    of \<open>p\<close>, whatever it is, when that member is there and is truthy, and 0 when it is absent
    or falsy.

  These cases cover every outcome. For \<^verbatim>\<open>evaluateTask\<close> the exchange is the one for the task
  found for the given id, and the text is parsed after the removal of the fences.
\<close>

theorem adapter_score_is_default_or_passed_through:
  \<open>(k = [] \<longrightarrow> evaluation.score (fst (evaluateAnswer k q a net)) = JNum 0)
   \<and> (k \<noteq> [] \<and> hard_failure (net (Answer_request k q a)) \<longrightarrow>
        evaluation.score (fst (evaluateAnswer k q a net)) = JNum 0)
   \<and> (k \<noteq> [] \<and> unusable_text keep_text (net (Answer_request k q a)) \<longrightarrow>
        evaluation.score (fst (evaluateAnswer k q a net)) = JNum 5)
   \<and> (k \<noteq> [] \<and> net (Answer_request k q a) = Text t \<and> JSON_parse t = Some p
        \<and> js_prop p ''score'' = Some v \<longrightarrow>
        evaluation.score (fst (evaluateAnswer k q a net))
          = (case v of None \<Rightarrow> JNum 0 | Some s \<Rightarrow> if truthy (Some s) then s else JNum 0))
   \<and> (hard_failure (net (Answer_request k q a))
        \<or> unusable_text keep_text (net (Answer_request k q a))
        \<or> (\<exists>t p v. net (Answer_request k q a) = Text t \<and> JSON_parse t = Some p
              \<and> js_prop p ''score'' = Some v))
   \<and> (k = [] \<longrightarrow> evaluation.score (fst (evaluateTask k tid acts net)) = JNum 0)
   \<and> (k \<noteq> [] \<and> find (\<lambda>t. id' t = tid) EXCEL_TASKS = None \<longrightarrow>
        evaluation.score (fst (evaluateTask k tid acts net)) = JNum 0)
   \<and> (k \<noteq> [] \<and> find (\<lambda>t. id' t = tid) EXCEL_TASKS = Some tk \<longrightarrow>
        (hard_failure (net (Task_request k tk acts)) \<longrightarrow>
           evaluation.score (fst (evaluateTask k tid acts net)) = JNum 0)
        \<and> (unusable_text replace_fences (net (Task_request k tk acts)) \<longrightarrow>
           evaluation.score (fst (evaluateTask k tid acts net)) = JNum 5)
        \<and> (net (Task_request k tk acts) = Text t' \<and> JSON_parse (replace_fences t') = Some p'
             \<and> js_prop p' ''score'' = Some v' \<longrightarrow>
           evaluation.score (fst (evaluateTask k tid acts net))
             = (case v' of None \<Rightarrow> JNum 0 | Some s \<Rightarrow> if truthy (Some s) then s else JNum 0))
        \<and> (hard_failure (net (Task_request k tk acts))
             \<or> unusable_text replace_fences (net (Task_request k tk acts))
             \<or> (\<exists>t p v. net (Task_request k tk acts) = Text t
                   \<and> JSON_parse (replace_fences t) = Some p \<and> js_prop p ''score'' = Some v)))\<close>
proof -
  have A: \<open>k \<noteq> [] \<Longrightarrow>
      fst (evaluateAnswer k q a net) = evaluateAnswer_response (net (Answer_request k q a))\<close>
    by (simp add: evaluateAnswer_def)
  have T: \<open>k \<noteq> [] \<Longrightarrow> find (\<lambda>t. id' t = tid) EXCEL_TASKS = Some tk \<Longrightarrow>
      fst (evaluateTask k tid acts net) = evaluateTask_response (net (Task_request k tk acts))\<close>
    by (simp add: evaluateTask_def)
  have 1: \<open>k = [] \<longrightarrow> evaluation.score (fst (evaluateAnswer k q a net)) = JNum 0\<close>
    by (simp add: evaluateAnswer_def)
  have 2: \<open>k \<noteq> [] \<and> hard_failure (net (Answer_request k q a)) \<longrightarrow>
        evaluation.score (fst (evaluateAnswer k q a net)) = JNum 0\<close>
    using A response_score_hard by simp
  have 3: \<open>k \<noteq> [] \<and> unusable_text keep_text (net (Answer_request k q a)) \<longrightarrow>
        evaluation.score (fst (evaluateAnswer k q a net)) = JNum 5\<close>
    using A response_score_unusable(1) by simp
  have 4: \<open>k \<noteq> [] \<and> net (Answer_request k q a) = Text t \<and> JSON_parse t = Some p
        \<and> js_prop p ''score'' = Some v \<longrightarrow>
        evaluation.score (fst (evaluateAnswer k q a net))
          = (case v of None \<Rightarrow> JNum 0 | Some s \<Rightarrow> if truthy (Some s) then s else JNum 0)\<close>
    using A response_score_parsed(1) [of t p v] by simp
  have 5: \<open>hard_failure (net (Answer_request k q a))
        \<or> unusable_text keep_text (net (Answer_request k q a))
        \<or> (\<exists>t p v. net (Answer_request k q a) = Text t \<and> JSON_parse t = Some p
              \<and> js_prop p ''score'' = Some v)\<close>
    using outcome_classes [of \<open>net (Answer_request k q a)\<close> keep_text]
    by (simp add: keep_text_def)
  have 6: \<open>k = [] \<longrightarrow> evaluation.score (fst (evaluateTask k tid acts net)) = JNum 0\<close>
    by (simp add: evaluateTask_def)
  have 7: \<open>k \<noteq> [] \<and> find (\<lambda>t. id' t = tid) EXCEL_TASKS = None \<longrightarrow>
        evaluation.score (fst (evaluateTask k tid acts net)) = JNum 0\<close>
    by (simp add: evaluateTask_def)
  have 8: \<open>k \<noteq> [] \<and> find (\<lambda>t. id' t = tid) EXCEL_TASKS = Some tk \<longrightarrow>
        (hard_failure (net (Task_request k tk acts)) \<longrightarrow>
           evaluation.score (fst (evaluateTask k tid acts net)) = JNum 0)
        \<and> (unusable_text replace_fences (net (Task_request k tk acts)) \<longrightarrow>
           evaluation.score (fst (evaluateTask k tid acts net)) = JNum 5)
        \<and> (net (Task_request k tk acts) = Text t' \<and> JSON_parse (replace_fences t') = Some p'
             \<and> js_prop p' ''score'' = Some v' \<longrightarrow>
           evaluation.score (fst (evaluateTask k tid acts net))
             = (case v' of None \<Rightarrow> JNum 0 | Some s \<Rightarrow> if truthy (Some s) then s else JNum 0))
        \<and> (hard_failure (net (Task_request k tk acts))
             \<or> unusable_text replace_fences (net (Task_request k tk acts))
             \<or> (\<exists>t p v. net (Task_request k tk acts) = Text t
                   \<and> JSON_parse (replace_fences t) = Some p \<and> js_prop p ''score'' = Some v))\<close>
    using T response_score_hard response_score_unusable(2)
      response_score_parsed(2) [of t' p' v']
      outcome_classes [of \<open>net (Task_request k tk acts)\<close> replace_fences]
    by simp
  from 1 2 3 4 5 6 7 8 show ?thesis
    by blast
qed

theorem adapter_score_is_default_or_passed_through_witness:
  \<open>JSON_parse answer_forty_two
      = Some (JObj [(''score'', JNum 42), (''justification'', JStr ''beyond the scale'')])
   \<and> js_prop (JObj [(''score'', JNum 42), (''justification'', JStr ''beyond the scale'')])
        ''score'' = Some (Some (JNum 42))
   \<and> evaluation.score (fst (evaluateAnswer ''key'' (js_index EXCEL_QUESTIONS 0)
         ''It looks a value up'' (answering (Text answer_forty_two)))) = JNum 42
   \<and> find (\<lambda>t. id' t = 1) EXCEL_TASKS = Some (EXCEL_TASKS ! 0)
   \<and> JSON_parse (replace_fences task_grade_text)
      = Some (JObj [(''score'', JStr ''A+''), (''justification'', JStr ''a grade, not a number'')])
   \<and> evaluation.score (fst (evaluateTask ''key'' 1 [] (answering (Text task_grade_text))))
      = JStr ''A+''\<close>
proof -
  let ?p = \<open>JObj [(''score'', JNum 42), (''justification'', JStr ''beyond the scale'')]\<close>
  let ?p' = \<open>JObj [(''score'', JStr ''A+''), (''justification'', JStr ''a grade, not a number'')]\<close>
  have parse: \<open>JSON_parse answer_forty_two = Some ?p\<close>
    \<open>JSON_parse (replace_fences task_grade_text) = Some ?p'\<close>
    by code_simp+
  have mem: \<open>js_prop ?p ''score'' = Some (Some (JNum 42))\<close>
    \<open>js_prop ?p' ''score'' = Some (Some (JStr ''A+''))\<close>
    by simp_all
  have found: \<open>find (\<lambda>t. id' t = 1) EXCEL_TASKS = Some (EXCEL_TASKS ! 0)\<close>
    by (simp add: EXCEL_TASKS_def)
  note answer = adapter_score_is_default_or_passed_through
    [of \<open>''key''\<close> \<open>js_index EXCEL_QUESTIONS 0\<close> \<open>''It looks a value up''\<close>
        \<open>answering (Text answer_forty_two)\<close> answer_forty_two ?p \<open>Some (JNum 42)\<close>]
  note task = adapter_score_is_default_or_passed_through
    [of \<open>''key''\<close> _ _ \<open>answering (Text task_grade_text)\<close> _ _ _
        1 \<open>[]\<close> \<open>EXCEL_TASKS ! 0\<close> task_grade_text ?p' \<open>Some (JStr ''A+'')\<close>]
  from answer parse mem have
    \<open>evaluation.score (fst (evaluateAnswer ''key'' (js_index EXCEL_QUESTIONS 0)
         ''It looks a value up'' (answering (Text answer_forty_two)))) = JNum 42\<close>
    by (simp add: answering_def)
  moreover from task parse mem found have
    \<open>evaluation.score (fst (evaluateTask ''key'' 1 [] (answering (Text task_grade_text))))
      = JStr ''A+''\<close>
    by (simp add: answering_def)
  ultimately have
    \<open>evaluation.score (fst (evaluateAnswer ''key'' (js_index EXCEL_QUESTIONS 0)
         ''It looks a value up'' (answering (Text answer_forty_two)))) = JNum 42\<close>
    \<open>evaluation.score (fst (evaluateTask ''key'' 1 [] (answering (Text task_grade_text))))
      = JStr ''A+''\<close>
    by blast+
  with parse mem found show ?thesis
    by simp
qed

section \<open>Failed evaluations\<close>






lemma task_resume_fields:
  \<open>taskResults (handleTaskComplete_resume now d ev ts) = taskResults ts @
       [\<lparr>taskId = id' (call_task d), task = description (call_task d),
         completed = (6 \<le> fst ev), TaskResult.score = fst ev, TaskResult.justification = snd ev,
         actions = call_actions d, timeSpent = call_timeSpent d\<rparr>]
   \<and> (if call_taskIndex d < 4
       then currentTaskIndex (handleTaskComplete_resume now d ev ts) = currentTaskIndex ts + 1
            \<and> assessmentStage (handleTaskComplete_resume now d ev ts) = assessmentStage ts
       else currentTaskIndex (handleTaskComplete_resume now d ev ts) = currentTaskIndex ts
            \<and> assessmentStage (handleTaskComplete_resume now d ev ts) = T_report)\<close>
  by (simp add: handleTaskComplete_resume_def Let_def startNextTask_keeps length_EXCEL_TASKS)





section \<open>Scores\<close>



text \<open>
  Claim C9. The record that \<^verbatim>\<open>handleTaskComplete\<close> appends carries the score of the evaluation,
  and its \<^verbatim>\<open>completed\<close> field is true exactly when that score is at least 6.
\<close>

theorem task_result_completed_iff:
  \<open>\<exists>r. taskResults (handleTaskComplete_resume now c (sc, ju) st) = taskResults st @ [r]
       \<and> TaskResult.score r = sc \<and> completed r = (6 \<le> TaskResult.score r)\<close>
  by (simp add: handleTaskComplete_resume_def Let_def startNextTask_keeps)

section \<open>Submitting and completing\<close>

text \<open>
  Claim C10. In the question session, when the current answer is empty or holds white space
  only (any sequence of the white space and line terminator characters that \<^verbatim>\<open>trim\<close>
  removes), \<^verbatim>\<open>handleSubmitAnswer\<close> returns at once and a click on the submit button changes
  nothing: the state is the same, so no call is suspended on the evaluator, no record is
  appended, and the index and the stage are as before.
\<close>

theorem blank_answer_submit_is_noop:
  \<open>list_all is_white_space ws \<Longrightarrow> currentAnswer st = concat ws \<Longrightarrow>
     handleSubmitAnswer_begin st = st \<and> question_step Q_submit_click st = Some st\<close>
proof -
  assume \<open>list_all is_white_space ws\<close> and a: \<open>currentAnswer st = concat ws\<close>
  then have \<open>set ws \<subseteq> set white_space\<close>
    by (auto simp: list_all_iff is_white_space_def)
  then have \<open>js_trim (currentAnswer st) = []\<close>
    unfolding a by (rule js_trim_blank)
  then show ?thesis
    by (simp add: handleSubmitAnswer_begin_def)
qed

theorem blank_answer_submit_is_noop_witness:
  \<open>interviewStage blank_answer_session = Q_interview
   \<and> list_all is_white_space blank_text
   \<and> currentAnswer blank_answer_session = concat blank_text
   \<and> currentAnswer blank_answer_session \<noteq> []
   \<and> handleSubmitAnswer_begin blank_answer_session = blank_answer_session
   \<and> question_step Q_submit_click blank_answer_session = Some blank_answer_session\<close>
proof -
  have blank: \<open>list_all is_white_space blank_text\<close>
    by (simp add: blank_text_def is_white_space_def white_space_def)
  have a: \<open>currentAnswer blank_answer_session = concat blank_text\<close>
    by (simp add: blank_answer_session_def)
  have \<open>interviewStage blank_answer_session = Q_interview\<close>
    \<open>currentAnswer blank_answer_session \<noteq> []\<close>
    by (simp_all add: blank_answer_session_def blank_text_def)
  with blank a blank_answer_submit_is_noop [OF blank a] show ?thesis
    by simp
qed

text \<open>
  Claim C1. The first task has one second left and no record yet. The user clicks Complete
  Task, the countdown expires while that evaluation is in flight and calls
  \<^verbatim>\<open>handleTaskComplete\<close> again, and both calls resume: the results then hold two records of
  task 1 and the index has moved from 0 to 2.
\<close>

theorem expiry_during_evaluation_completes_twice:
  \<open>map_option task_observe (task_run (start_events @ ticks 0 179) task_session_init)
     = Some (T_tasks, [], 0, 1)
   \<and> map_option task_observe
       (task_run (start_events @ ticks 0 179 @ expiry_race 179000) task_session_init)
     = Some (T_tasks, [1, 1], 2, 300)\<close>
  by code_simp

text \<open>
  Claim C2. The same race on the last of the five tasks: the session reaches the report with
  six records, the fifth task recorded twice.
\<close>

theorem report_with_six_results:
  \<open>map_option task_observe
      (task_run (start_events @ four_tasks_done @ ticks 8000 419 @ expiry_race 427000)
         task_session_init)
     = Some (T_report, [1, 2, 3, 4, 5, 5], 4, 0)
   \<and> length EXCEL_TASKS = 5\<close>
  by code_simp

text \<open>
  Each trigger alone completes the current task once. From a state of the tasks stage with no
  call suspended, a click on Complete Task followed by the evaluation, and likewise the tick
  that ends the countdown followed by the evaluation, append one record and advance once.
\<close>

lemma task_resume_suspended:
  \<open>task_session.suspended (handleTaskComplete_resume now d ev ts) = task_session.suspended ts\<close>
  by (simp add: handleTaskComplete_resume_def Let_def startNextTask_keeps)

lemma task_begin_idle:
  assumes \<open>task_session.suspended st = []\<close> \<open>taskStartTime st = Some t0\<close>
    \<open>currentTaskIndex st < 5\<close>
  shows \<open>\<exists>c. task_session.suspended (handleTaskComplete_begin now st) = [c]
           \<and> call_taskIndex c = currentTaskIndex st
           \<and> taskResults (handleTaskComplete_begin now st) = taskResults st
           \<and> currentTaskIndex (handleTaskComplete_begin now st) = currentTaskIndex st
           \<and> assessmentStage (handleTaskComplete_begin now st) = assessmentStage st\<close>
  using assms by (simp add: handleTaskComplete_begin_def js_index_def length_EXCEL_TASKS)

lemma one_call_resolves_once:
  assumes one: \<open>task_session.suspended st1 = [c]\<close>
    and step: \<open>task_step (T_evaluated 0 out now) st1 = Some st'\<close>
  shows \<open>length (taskResults st') = length (taskResults st1) + 1
       \<and> task_session.suspended st' = []
       \<and> (if call_taskIndex c < 4
           then currentTaskIndex st' = currentTaskIndex st1 + 1
                \<and> assessmentStage st' = assessmentStage st1
           else currentTaskIndex st' = currentTaskIndex st1 \<and> assessmentStage st' = T_report)\<close>
proof -
  define st0 where \<open>st0 = st1\<lparr>task_session.suspended := remove_nth 0 (task_session.suspended st1)\<rparr>\<close>
  from one step obtain ev where st': \<open>st' = handleTaskComplete_resume now c ev st0\<close>
    by (auto simp: js_index_def st0_def split: option.splits)
  have st0: \<open>task_session.suspended st0 = []\<close> \<open>taskResults st0 = taskResults st1\<close>
    \<open>currentTaskIndex st0 = currentTaskIndex st1\<close> \<open>assessmentStage st0 = assessmentStage st1\<close>
    using one by (simp_all add: st0_def remove_nth_def)
  from task_resume_fields [of now c ev st0] task_resume_suspended [of now c ev st0] st' st0
  show ?thesis by simp
qed

lemma click_alone_completes_once:
  assumes stage: \<open>assessmentStage st = T_tasks\<close> and idle: \<open>\<not> task_session.isLoading st\<close>
    and none: \<open>task_session.suspended st = []\<close> and started: \<open>taskStartTime st = Some t0\<close>
    and idx: \<open>currentTaskIndex st < 5\<close>
    and run: \<open>task_run [T_complete_click now, T_evaluated 0 out now'] st = Some st'\<close>
  shows \<open>length (taskResults st') = length (taskResults st) + 1
       \<and> task_session.suspended st' = []
       \<and> (if currentTaskIndex st < 4
           then currentTaskIndex st' = currentTaskIndex st + 1 \<and> assessmentStage st' = T_tasks
           else currentTaskIndex st' = currentTaskIndex st \<and> assessmentStage st' = T_report)\<close>
proof -
  define st1 where \<open>st1 = handleTaskComplete_begin now st\<close>
  from task_begin_idle [OF none started idx, of now] obtain c where
    c: \<open>task_session.suspended st1 = [c]\<close> \<open>call_taskIndex c = currentTaskIndex st\<close>
      \<open>taskResults st1 = taskResults st\<close> \<open>currentTaskIndex st1 = currentTaskIndex st\<close>
      \<open>assessmentStage st1 = assessmentStage st\<close>
    unfolding st1_def by blast
  from run stage idle have \<open>task_step (T_evaluated 0 out now') st1 = Some st'\<close>
    by (simp add: st1_def del: task_step.simps(5) split: option.splits)
  from one_call_resolves_once [OF c(1) this] c stage show ?thesis
    by simp
qed

lemma expiry_alone_completes_once:
  assumes stage: \<open>assessmentStage st = T_tasks\<close> and last: \<open>timeRemaining st = 1\<close>
    and none: \<open>task_session.suspended st = []\<close> and started: \<open>taskStartTime st = Some t0\<close>
    and idx: \<open>currentTaskIndex st < 5\<close>
    and run: \<open>task_run [T_tick now, T_evaluated 0 out now'] st = Some st'\<close>
  shows \<open>length (taskResults st') = length (taskResults st) + 1
       \<and> task_session.suspended st' = []
       \<and> (if currentTaskIndex st < 4
           then currentTaskIndex st' = currentTaskIndex st + 1 \<and> assessmentStage st' = T_tasks
           else currentTaskIndex st' = currentTaskIndex st \<and> assessmentStage st' = T_report)\<close>
proof -
  define st1 where \<open>st1 = (handleTaskComplete_begin now st)\<lparr>timeRemaining := 0\<rparr>\<close>
  from task_begin_idle [OF none started idx, of now] obtain c where
    c: \<open>task_session.suspended st1 = [c]\<close> \<open>call_taskIndex c = currentTaskIndex st\<close>
      \<open>taskResults st1 = taskResults st\<close> \<open>currentTaskIndex st1 = currentTaskIndex st\<close>
      \<open>assessmentStage st1 = assessmentStage st\<close>
    unfolding st1_def by auto
  from run stage last have \<open>task_step (T_evaluated 0 out now') st1 = Some st'\<close>
    by (simp add: st1_def timer_tick_def del: task_step.simps(5) split: option.splits)
  from one_call_resolves_once [OF c(1) this] c stage show ?thesis
    by simp
qed

text \<open>
  The question session has no timer, and its submit button and text area are disabled while
  an evaluation is in flight: every state reached from the initial one satisfies the
  invariant. So while the interview runs the number of records is the index, at the report it
  is the number of questions, and every record holds the question of its position.
\<close>

lemma question_inv_init: \<open>question_inv question_session_init\<close>
  by (simp add: question_inv_def question_session_init_def)

lemma question_inv_resume:
  assumes inv: \<open>question_inv st\<close> and c: \<open>js_index (question_session.suspended st) k = Some c\<close>
  shows \<open>question_inv (handleSubmitAnswer_resume c ev
            (st\<lparr>question_session.suspended := remove_nth k (question_session.suspended st)\<rparr>))\<close>
proof -
  from inv c have one: \<open>question_session.suspended st = [c]\<close> \<open>k = 0\<close>
    by (cases \<open>question_session.suspended st\<close>; cases k;
        simp add: question_inv_def js_index_def split: if_splits)+
  with inv have stage: \<open>interviewStage st = Q_interview\<close>
    by (cases \<open>interviewStage st\<close>) (simp_all add: question_inv_def)
  from inv one stage have facts: \<open>length (answers st) = currentQuestionIndex st\<close>
    \<open>currentQuestionIndex st < 5\<close> \<open>call_index c = currentQuestionIndex st\<close>
    \<open>call_question c = js_index EXCEL_QUESTIONS (currentQuestionIndex st)\<close>
    \<open>\<forall>i<length (answers st). question (answers st ! i) = js_index EXCEL_QUESTIONS i\<close>
    by (simp_all add: question_inv_def length_EXCEL_QUESTIONS)
  show ?thesis
    using one stage facts
    by (auto simp: question_inv_def handleSubmitAnswer_resume_def Let_def remove_nth_def
          length_EXCEL_QUESTIONS nth_append less_Suc_eq)
qed

lemma question_inv_same:
  \<open>interviewStage st' = interviewStage st \<Longrightarrow> answers st' = answers st \<Longrightarrow>
   currentQuestionIndex st' = currentQuestionIndex st \<Longrightarrow>
   question_session.suspended st' = question_session.suspended st \<Longrightarrow>
   question_session.isLoading st' = question_session.isLoading st \<Longrightarrow>
   question_inv st' = question_inv st\<close>
  by (simp add: question_inv_def)

lemma question_inv_start:
  \<open>question_inv st \<Longrightarrow> interviewStage st = Q_welcome \<Longrightarrow> question_inv (startAssessment now st)\<close>
  by (simp add: question_inv_def startAssessment_def length_EXCEL_QUESTIONS)

lemma question_inv_begin:
  assumes inv: \<open>question_inv st\<close> and stage: \<open>interviewStage st = Q_interview\<close>
    and idle: \<open>\<not> question_session.isLoading st\<close>
  shows \<open>question_inv (handleSubmitAnswer_begin st)\<close>
proof -
  from inv idle have none: \<open>question_session.suspended st = []\<close>
    by (auto simp: question_inv_def)
  with inv stage show ?thesis
    by (simp add: question_inv_def handleSubmitAnswer_begin_def)
qed

lemma question_inv_step:
  assumes inv: \<open>question_inv st\<close> and step: \<open>question_step e st = Some st'\<close>
  shows \<open>question_inv st'\<close>
proof (cases e)
  case (Q_key_input k)
  with step have \<open>st' = st\<lparr>question_session.apiKey := k\<rparr> \<or> st' = st\<close>
    by (simp split: if_splits)
  with inv question_inv_same [of \<open>st\<lparr>question_session.apiKey := k\<rparr>\<close> st] show ?thesis
    by auto
next
  case (Q_start_click now)
  with step have \<open>st' = startAssessment now st \<and> interviewStage st = Q_welcome \<or> st' = st\<close>
    by (simp split: if_splits)
  with inv question_inv_start [of st now] show ?thesis
    by auto
next
  case (Q_answer_input s)
  with step have \<open>st' = st\<lparr>currentAnswer := s\<rparr> \<or> st' = st\<close>
    by (simp split: if_splits)
  with inv question_inv_same [of \<open>st\<lparr>currentAnswer := s\<rparr>\<close> st] show ?thesis
    by auto
next
  case (Q_answer_paste now)
  with step have \<open>st' = handlePaste now st \<or> st' = st\<close>
    by (simp split: if_splits)
  with inv question_inv_same [of \<open>handlePaste now st\<close> st] show ?thesis
    by (auto simp: handlePaste_def)
next
  case (Q_visibility hidden now)
  with step have st': \<open>st' = handleVisibilityChange hidden now st\<close>
    by simp
  have \<open>question_inv (handleVisibilityChange hidden now st) = question_inv st\<close>
    by (rule question_inv_same) (simp_all add: handleVisibilityChange_def)
  with inv st' show ?thesis
    by simp
next
  case Q_submit_click
  with step have \<open>st' = handleSubmitAnswer_begin st \<and> interviewStage st = Q_interview
      \<and> \<not> question_session.isLoading st \<or> st' = st\<close>
    by (simp split: if_splits)
  with inv question_inv_begin [of st] show ?thesis
    by auto
next
  case (Q_evaluated k out)
  show ?thesis
  proof (cases \<open>js_index (question_session.suspended st) k\<close>)
    case None
    with Q_evaluated inv step show ?thesis by simp
  next
    case (Some c)
    with Q_evaluated step obtain ev where
      \<open>st' = handleSubmitAnswer_resume c ev
               (st\<lparr>question_session.suspended := remove_nth k (question_session.suspended st)\<rparr>)\<close>
      by (auto split: option.splits)
    with question_inv_resume [OF inv Some] show ?thesis by simp
  qed
qed

lemma question_inv_run:
  \<open>question_inv st \<Longrightarrow> question_run es st = Some st' \<Longrightarrow> question_inv st'\<close>
proof (induction es arbitrary: st)
  case Nil
  then show ?case by simp
next
  case (Cons e es)
  then show ?case
    by (auto split: option.splits dest: question_inv_step)
qed

lemma question_session_records_match_items:
  assumes \<open>question_run es question_session_init = Some st\<close>
  shows \<open>(interviewStage st = Q_interview \<longrightarrow> length (answers st) = currentQuestionIndex st)
       \<and> (interviewStage st = Q_report \<longrightarrow> length (answers st) = length EXCEL_QUESTIONS)
       \<and> (\<forall>i<length (answers st). question (answers st ! i) = Some (EXCEL_QUESTIONS ! i))\<close>
proof -
  from question_inv_run [OF question_inv_init assms] have inv: \<open>question_inv st\<close> .
  then have \<open>length (answers st) \<le> length EXCEL_QUESTIONS\<close>
    by (cases \<open>interviewStage st\<close>) (simp_all add: question_inv_def)
  with inv show ?thesis
    by (auto simp: question_inv_def js_index_def)
qed

section \<open>Integrity flags\<close>

text \<open>
  Claim C6. In the running task session a paste into the formula bar records no flag: that
  input has no \<^verbatim>\<open>onPaste\<close> handler. The same paste into a cell of the grid records one.
\<close>

theorem formula_bar_paste_not_flagged:
  \<open>map_option task_flags (task_run (start_events @ [T_formula_bar_paste 5000]) task_session_init)
     = Some (T_tasks, [])
   \<and> map_option task_flags (task_run (start_events @ [T_cell_paste 5000]) task_session_init)
     = Some (T_tasks, [\<lparr>CheatingFlag.type = paste, CheatingFlag.timestamp = 5000\<rparr>])\<close>
  by code_simp

text \<open>
  The other events behave as the flag list is meant to: one step appends at most one flag and
  removes none, and appends none outside the running stage; a paste into the answer text area
  or into a cell of the grid, and a change of visibility to hidden, append exactly one flag
  of their kind.
\<close>

lemma question_resume_flags:
  \<open>question_session.cheatingFlags (handleSubmitAnswer_resume c ev st) = question_session.cheatingFlags st\<close>
  by (simp add: handleSubmitAnswer_resume_def Let_def)

lemma question_flags_grow:
  assumes \<open>question_step e st = Some st'\<close>
  shows \<open>\<exists>new. question_session.cheatingFlags st' = question_session.cheatingFlags st @ new
           \<and> length new \<le> 1 \<and> (interviewStage st \<noteq> Q_interview \<longrightarrow> new = [])\<close>
proof (cases e)
  case (Q_key_input k)
  with assms show ?thesis by (auto split: if_splits)
next
  case (Q_start_click now)
  with assms show ?thesis by (auto simp: startAssessment_def split: if_splits)
next
  case (Q_answer_input s)
  with assms show ?thesis by (auto split: if_splits)
next
  case (Q_answer_paste now)
  with assms show ?thesis by (auto simp: handlePaste_def split: if_splits)
next
  case (Q_visibility hidden now)
  with assms show ?thesis by (auto simp: handleVisibilityChange_def split: if_splits)
next
  case Q_submit_click
  with assms show ?thesis by (auto simp: handleSubmitAnswer_begin_def split: if_splits)
next
  case (Q_evaluated k out)
  with assms show ?thesis
    by (auto simp: question_resume_flags split: option.splits)
qed

lemma question_paste_and_hidden_flag:
  \<open>interviewStage st = Q_interview \<Longrightarrow> \<not> question_session.isLoading st \<Longrightarrow>
     question_step (Q_answer_paste now) st =
       Some (st\<lparr>question_session.cheatingFlags := question_session.cheatingFlags st @
               [\<lparr>CheatingFlag.type = paste, CheatingFlag.timestamp = now\<rparr>]\<rparr>)\<close>
  \<open>interviewStage st = Q_interview \<Longrightarrow>
     question_step (Q_visibility True now) st =
       Some (st\<lparr>question_session.cheatingFlags := question_session.cheatingFlags st @
               [\<lparr>CheatingFlag.type = tab_switch, CheatingFlag.timestamp = now\<rparr>]\<rparr>)\<close>
  by (simp_all add: handlePaste_def handleVisibilityChange_def)

lemma task_begin_flags:
  \<open>task_session.cheatingFlags (handleTaskComplete_begin now st) = task_session.cheatingFlags st\<close>
  by (simp add: handleTaskComplete_begin_def split: option.split)

lemma task_resume_flags:
  \<open>task_session.cheatingFlags (handleTaskComplete_resume now c ev st) = task_session.cheatingFlags st\<close>
  by (simp add: handleTaskComplete_resume_def Let_def startNextTask_keeps)

lemma task_flags_grow:
  assumes \<open>task_step e st = Some st'\<close>
  shows \<open>\<exists>new. task_session.cheatingFlags st' = task_session.cheatingFlags st @ new
           \<and> length new \<le> 1 \<and> (assessmentStage st \<noteq> T_tasks \<longrightarrow> new = [])\<close>
proof (cases e)
  case (T_key_input k)
  with assms show ?thesis by (auto split: if_splits)
next
  case (T_start_click now)
  with assms show ?thesis by (auto simp: startAssessment_tasks_def split: if_splits)
next
  case (T_tick now)
  with assms show ?thesis by (auto simp: timer_tick_def task_begin_flags split: if_splits)
next
  case (T_complete_click now)
  with assms show ?thesis by (auto simp: task_begin_flags split: if_splits)
next
  case (T_evaluated k out now)
  with assms show ?thesis by (auto simp: task_resume_flags split: option.splits)
next
  case (T_visibility hidden now)
  with assms show ?thesis by (auto simp: handleVisibilityChange_tasks_def split: if_splits)
next
  case (T_cell_paste now)
  with assms show ?thesis by (auto simp: cell_onPaste_def split: if_splits)
next
  case (T_formula_bar_paste now)
  with assms show ?thesis by auto
next
  case (T_cell_edit now cellName old new)
  with assms show ?thesis by (auto simp: handleCellEdit_def split: if_splits)
qed

lemma task_cell_paste_and_hidden_flag:
  \<open>assessmentStage st = T_tasks \<Longrightarrow>
     task_step (T_cell_paste now) st =
       Some (st\<lparr>task_session.cheatingFlags := task_session.cheatingFlags st @
               [\<lparr>CheatingFlag.type = paste, CheatingFlag.timestamp = now\<rparr>]\<rparr>)\<close>
  \<open>assessmentStage st = T_tasks \<Longrightarrow>
     task_step (T_visibility True now) st =
       Some (st\<lparr>task_session.cheatingFlags := task_session.cheatingFlags st @
               [\<lparr>CheatingFlag.type = tab_switch, CheatingFlag.timestamp = now\<rparr>]\<rparr>)\<close>
  by (simp_all add: cell_onPaste_def handleVisibilityChange_tasks_def)

end
